theory Spec2Isabelle
  imports Main "HOL-Library.Multiset_Order"
begin

section \<open>Remote job management of law: \<open>law/job/base.py\<close>\<close>

text \<open>
  A shallow embedding of the job manager, the job file factory, the job arguments and the
  job input file of \<open>law/job/base.py\<close>. Python text is a list of characters; a \<open>char\<close>
  is a code point below 256, which is also the range that \<open>six.b\<close> (latin-1) accepts.
\<close>

subsection \<open>Text helpers of the Python runtime\<close>

text \<open>\<open>sep.join(parts)\<close>.\<close>

fun str_join :: "string \<Rightarrow> string list \<Rightarrow> string" where
  "str_join sep [] = []"
| "str_join sep [x] = x"
| "str_join sep (x # y # ys) = x @ sep @ str_join sep (y # ys)"

text \<open>\<open>str(n)\<close> for a non-negative and for an arbitrary integer.\<close>

definition digit_char :: "nat \<Rightarrow> char" where
  "digit_char d = ''0123456789'' ! d"

function show_nat :: "nat \<Rightarrow> string" where
  "show_nat n = (if n < 10 then [digit_char n] else show_nat (n div 10) @ [digit_char (n mod 10)])"
  by pat_completeness auto
termination
  by (relation "measure id") auto

declare show_nat.simps [simp del]

definition show_int :: "int \<Rightarrow> string" where
  "show_int i = (if i < 0 then CHR ''-'' # show_nat (nat (- i)) else show_nat (nat i))"

text \<open>
  \<open>base64.b64encode\<close> on a byte string: three bytes give four characters of the standard
  alphabet, a rest of one or two bytes is padded with \<open>=\<close>.
\<close>

definition b64_alphabet :: string where
  "b64_alphabet = ''ABCDEFGHIJKLMNOPQRSTUVWXYZabcdefghijklmnopqrstuvwxyz0123456789+/''"

definition b64_char :: "nat \<Rightarrow> char" where
  "b64_char n = b64_alphabet ! (n mod 64)"

fun b64encode :: "string \<Rightarrow> string" where
  "b64encode [] = []"
| "b64encode [a] =
     (let n = (of_char a :: nat) * 65536
      in [b64_char (n div 262144), b64_char (n div 4096), CHR ''='', CHR ''=''])"
| "b64encode [a, b] =
     (let n = (of_char a :: nat) * 65536 + of_char b * 256
      in [b64_char (n div 262144), b64_char (n div 4096), b64_char (n div 64), CHR ''=''])"
| "b64encode (a # b # c # rest) =
     (let n = (of_char a :: nat) * 65536 + of_char b * 256 + of_char c
      in [b64_char (n div 262144), b64_char (n div 4096), b64_char (n div 64), b64_char n]
         @ b64encode rest)"

text \<open>\<open>six.b(s)\<close> encodes the text as latin-1: every code point below 256 is its own byte.\<close>

definition six_b :: "string \<Rightarrow> string" where
  "six_b s = s"

subsection \<open>JobInputFile\<close>

record JobInputFile =
  path :: string
  copy :: bool
  share :: bool
  forward :: bool
  postfix :: bool
  render_local :: bool
  render_job :: bool

text \<open>The \<open>path\<close> argument of the constructor: a path, or another job input file.\<close>

datatype path_arg = PathStr string | PathFile JobInputFile

text \<open>\<open>maybe_set = lambda current, default: default if current is None else current\<close>\<close>

definition maybe_set :: "bool option \<Rightarrow> bool \<Rightarrow> bool option" where
  "maybe_set current dflt = (case current of None \<Rightarrow> Some dflt | Some c \<Rightarrow> Some c)"

text \<open>The residual default \<open>d if x is None else bool(x)\<close>.\<close>

definition residual :: "bool \<Rightarrow> bool option \<Rightarrow> bool" where
  "residual d x = (case x of None \<Rightarrow> d | Some b \<Rightarrow> b)"

text \<open>The six messages handed to \<open>logger.warning\<close>.\<close>

definition warn_postfix :: "string \<Rightarrow> string" where
  "warn_postfix p = ''input file at '' @ p @
     '' is configured not to be copied into the submission directory, but postfixing is enabled which has no effect''"

definition warn_share :: "string \<Rightarrow> string" where
  "warn_share p = ''input file at '' @ p @
     '' is configured not to be copied into the submission directory, but sharing is enabled which has no effect''"

definition warn_forward :: "string \<Rightarrow> string" where
  "warn_forward p = ''input file at '' @ p @
     '' is configured to be copied into the submission directory, but but forwarding is enabled which has no effect''"

definition warn_render :: "string \<Rightarrow> string" where
  "warn_render p = ''input file at '' @ p @
     '' is configured not to be copied into the submission directory, but rendering is enabled which has no effect''"

definition warn_share_render :: "string \<Rightarrow> string" where
  "warn_share_render p = ''input file at '' @ p @
     '' is configured to be shared across jobs but local rendering is active, potentially resulting in wrong file content''"

definition warn_render_twice :: "string \<Rightarrow> string" where
  "warn_render_twice p = ''input file at '' @ p @
     '' is configured to be rendered locally and within the job, which is likely unnecessary''"

text \<open>
  \<open>JobInputFile.__init__\<close>. The flags are \<open>None\<close> or a boolean; the constructor has no
  \<open>raise\<close>, its result is the stored object together with the warnings logged, in order.
  Every assignment of the source is one binding here, numbered in the order of the source.
\<close>

definition JobInputFile_init ::
  "path_arg \<Rightarrow> bool option \<Rightarrow> bool option \<Rightarrow> bool option \<Rightarrow> bool option \<Rightarrow> bool option \<Rightarrow>
   bool option \<Rightarrow> bool option \<Rightarrow> JobInputFile \<times> string list" where
  "JobInputFile_init path_a copy_a share_a forward_a postfix_a render_a render_local_a render_job_a =
    (let (path0, copy0, share0, forward0, postfix0, render_local0, render_job0) =
           (case path_a of
              PathFile f \<Rightarrow> (path f, Some (copy f), Some (share f), Some (forward f), Some (postfix f),
                             Some (render_local f), Some (render_job f))
            | PathStr s \<Rightarrow> (s, copy_a, share_a, forward_a, postfix_a, render_local_a, render_job_a));
         (render_local1, render_job1) =
           (case render_a of
              Some r \<Rightarrow> if render_local0 = None \<and> render_job0 = None then (Some r, Some False)
                        else (render_local0, render_job0)
            | None \<Rightarrow> (render_local0, render_job0));
         (share1, postfix1, render_local2) =
           (if copy0 = Some False
            then (maybe_set share0 False, maybe_set postfix0 False, maybe_set render_local1 False)
            else (share0, postfix0, render_local1));
         (copy1, forward1, render_local3, postfix2) =
           (if share1 = Some True
            then (maybe_set copy0 True, maybe_set forward0 False, maybe_set render_local2 False,
                  maybe_set postfix1 False)
            else (copy0, forward0, render_local2, postfix1));
         (copy2, share2, render_local4, postfix3) =
           (if forward1 = Some True
            then (maybe_set copy1 False, maybe_set share1 False, maybe_set render_local3 False,
                  maybe_set postfix2 False)
            else (copy1, share1, render_local3, postfix2));
         (copy3, share3, forward2) =
           (if postfix3 = Some True
            then (maybe_set copy2 True, maybe_set share2 False, maybe_set forward1 False)
            else (copy2, share2, forward1));
         (copy4, share4, forward3, render_job2) =
           (if render_local4 = Some True
            then (maybe_set copy3 True, maybe_set share3 False, maybe_set forward2 False,
                  maybe_set render_job1 False)
            else (copy3, share3, forward2, render_job1));
         (forward4, render_local5) =
           (if render_job2 = Some True
            then (maybe_set forward3 False, maybe_set render_local4 False)
            else (forward3, render_local4));
         self = \<lparr> path = path0, copy = residual True copy4, share = residual False share4,
                  forward = residual False forward4, postfix = residual True postfix3,
                  render_local = residual True render_local5,
                  render_job = residual False render_job2 \<rparr>
     in (self,
         (if \<not> copy self \<and> postfix self then [warn_postfix (path self)] else []) @
         (if \<not> copy self \<and> share self then [warn_share (path self)] else []) @
         (if copy self \<and> forward self then [warn_forward (path self)] else []) @
         (if \<not> copy self \<and> render_local self then [warn_render (path self)] else []) @
         (if share self \<and> render_local self then [warn_share_render (path self)] else []) @
         (if render_local self \<and> render_job self then [warn_render_twice (path self)] else [])))"

subsection \<open>JobArguments\<close>

text \<open>The two attributes of the task class that \<open>get_args\<close> reads: \<open>__module__\<close> and \<open>__name__\<close>.\<close>

record task_cls =
  cls_module :: string
  cls_name :: string

record JobArguments =
  task_cls :: task_cls
  task_params :: string
  branches :: "int list"
  auto_retry :: bool
  dashboard_data :: "string list"

text \<open>\<open>JobArguments.__init__\<close>: \<open>dashboard_data or []\<close>.\<close>

definition JobArguments_init ::
  "task_cls \<Rightarrow> string \<Rightarrow> int list \<Rightarrow> bool \<Rightarrow> string list option \<Rightarrow> JobArguments" where
  "JobArguments_init cls params brs retry dash =
     \<lparr> task_cls = cls, task_params = params, branches = brs, auto_retry = retry,
       dashboard_data = (case dash of None \<Rightarrow> [] | Some d \<Rightarrow> d) \<rparr>"

definition encode_bool :: "bool \<Rightarrow> string" where
  "encode_bool b = (if b then ''yes'' else ''no'')"

text \<open>\<open>base64.b64encode(six.b(s or "-"))\<close>\<close>

definition encode_string :: "string \<Rightarrow> string" where
  "encode_string s = b64encode (six_b (if s \<noteq> [] then s else ''-''))"

text \<open>
  \<open>base64.b64encode(six.b(" ".join(str(v) for v in l) or "-"))\<close>; the elements arrive
  already as their \<open>str\<close>.
\<close>

definition encode_list :: "string list \<Rightarrow> string" where
  "encode_list l =
     (let joined = str_join '' '' l
      in b64encode (six_b (if joined \<noteq> [] then joined else ''-'')))"

definition get_args :: "JobArguments \<Rightarrow> string list" where
  "get_args self =
     [ cls_module (task_cls self),
       cls_name (task_cls self),
       encode_string (task_params self),
       encode_list (map show_int (branches self)),
       encode_bool (auto_retry self),
       encode_list (dashboard_data self) ]"

definition join :: "JobArguments \<Rightarrow> string" where
  "join self = str_join '' '' (get_args self)"

text \<open>
  The encoding of a list and of a string as the specification words it: the placeholder
  stands for the empty list and for the empty string.
\<close>

definition spec_encode_string :: "string \<Rightarrow> string" where
  "spec_encode_string s = b64encode (if s = [] then ''-'' else s)"

definition spec_encode_list :: "string list \<Rightarrow> string" where
  "spec_encode_list l = b64encode (if l = [] then ''-'' else str_join '' '' l)"

subsection \<open>Python values and exceptions\<close>

text \<open>
  The exceptions that the modelled code raises itself, and \<open>BackendError\<close> for whatever an
  atomic operation of a backend raises.
\<close>

datatype pyerr =
    Exception string
  | UnboundLocalError string
  | KeyError string
  | IndexError
  | TypeError
  | IOError string
  | UnicodeDecodeError
  | BackendError string

text \<open>
  The values that travel through the batch operations: job files, job ids, status data,
  exceptions caught as data, lists (a chunk is a list) and dictionaries in insertion order.
  Exceptions are compared by content.
\<close>

datatype pyval =
    PNone
  | PInt int
  | PStr string
  | PExc pyerr
  | PList "pyval list"
  | PDict "(pyval \<times> pyval) list"

text \<open>\<open>bool(v)\<close>\<close>

fun truthy :: "pyval \<Rightarrow> bool" where
  "truthy PNone = False"
| "truthy (PInt i) = (i \<noteq> 0)"
| "truthy (PStr s) = (s \<noteq> [])"
| "truthy (PExc e) = True"
| "truthy (PList xs) = (xs \<noteq> [])"
| "truthy (PDict d) = (d \<noteq> [])"

text \<open>\<open>isinstance(v, Exception)\<close>\<close>

fun is_exception :: "pyval \<Rightarrow> bool" where
  "is_exception (PExc e) = True"
| "is_exception v = False"

text \<open>Iterating a value, as \<open>list.extend\<close> does; a value that is not iterable is a \<open>TypeError\<close>.\<close>

fun py_iter :: "pyval \<Rightarrow> pyerr + pyval list" where
  "py_iter (PList xs) = Inr xs"
| "py_iter (PStr s) = Inr (map (\<lambda>c. PStr [c]) s)"
| "py_iter (PDict d) = Inr (map fst d)"
| "py_iter v = Inl TypeError"

text \<open>\<open>len(chunk)\<close> for a chunk, which is a list.\<close>

fun py_len :: "pyval \<Rightarrow> nat" where
  "py_len (PList xs) = length xs"
| "py_len (PStr s) = length s"
| "py_len (PDict d) = length d"
| "py_len v = 0"

text \<open>Lists and dictionaries cannot be dictionary keys.\<close>

fun hashable :: "pyval \<Rightarrow> bool" where
  "hashable (PList xs) = False"
| "hashable (PDict d) = False"
| "hashable v = True"

text \<open>\<open>d[k] = v\<close>: an existing key keeps its place, a new key goes to the end.\<close>

fun dict_set :: "'k \<Rightarrow> 'v \<Rightarrow> ('k \<times> 'v) list \<Rightarrow> ('k \<times> 'v) list" where
  "dict_set k v [] = [(k, v)]"
| "dict_set k v ((k', v') # d) = (if k' = k then (k, v) # d else (k', v') # dict_set k v d)"

definition dict_setitem ::
  "pyval \<Rightarrow> pyval \<Rightarrow> (pyval \<times> pyval) list \<Rightarrow> pyerr + (pyval \<times> pyval) list" where
  "dict_setitem k v d = (if hashable k then Inr (dict_set k v d) else Inl TypeError)"

text \<open>\<open>d.update(data)\<close> for a dictionary \<open>data\<close>; any other argument is taken as a \<open>TypeError\<close>.\<close>

fun dict_update_items ::
  "(pyval \<times> pyval) list \<Rightarrow> (pyval \<times> pyval) list \<Rightarrow> (pyval \<times> pyval) list" where
  "dict_update_items [] d = d"
| "dict_update_items ((k, v) # kvs) d = dict_update_items kvs (dict_set k v d)"

fun dict_update :: "pyval \<Rightarrow> (pyval \<times> pyval) list \<Rightarrow> pyerr + (pyval \<times> pyval) list" where
  "dict_update (PDict data) d = Inr (dict_update_items data d)"
| "dict_update v d = Inl TypeError"

text \<open>\<open>{job_id: data for job_id in chunk}\<close>\<close>

fun dict_from_keys :: "pyval list \<Rightarrow> pyval \<Rightarrow> (pyval \<times> pyval) list \<Rightarrow> pyerr + (pyval \<times> pyval) list" where
  "dict_from_keys [] v d = Inr d"
| "dict_from_keys (k # ks) v d =
     (case dict_setitem k v d of Inl e \<Rightarrow> Inl e | Inr d' \<Rightarrow> dict_from_keys ks v d')"

subsection \<open>Helpers of \<open>law.util\<close>\<close>

text \<open>
  Modelled from the spec: \<open>make_list\<close> of \<open>law.util\<close> is not among the sources at hand. The
  spec has the batch operations normalise the caller's items into a flat ordered list: a
  list is taken as it is, a single item becomes a list of one.
\<close>

fun make_list :: "pyval \<Rightarrow> pyval list" where
  "make_list (PList xs) = xs"
| "make_list v = [v]"

text \<open>
  Modelled from the spec: \<open>iter_chunks\<close> of \<open>law.util\<close> is not among the sources at hand. The
  spec partitions the list into chunks in original order, each a contiguous slice of up to
  \<open>size\<close> items. The batch operations call it with a positive size only.
\<close>

function iter_chunks :: "'a list \<Rightarrow> nat \<Rightarrow> 'a list list" where
  "iter_chunks l sz =
     (if sz = 0 then [l]
      else if l = [] then []
      else take sz l # iter_chunks (drop sz l) sz)"
  by pat_completeness auto
termination
  by (relation "measure (\<lambda>(l, sz). length l)") auto

declare iter_chunks.simps [simp del]

text \<open>
  Modelled from the spec: \<open>flatten\<close> of \<open>law.util\<close> is not among the sources at hand. The
  spec asks for a flat list: nested lists are flattened depth first in order, of a
  dictionary the values are flattened, every other value is one element.
\<close>

fun flatten :: "pyval \<Rightarrow> pyval list" where
  "flatten (PList xs) = concat (map flatten xs)"
| "flatten (PDict d) = concat (map (\<lambda>kv. flatten (snd kv)) d)"
| "flatten v = [v]"

subsection \<open>BaseJobManager\<close>

text \<open>The keyword arguments of \<open>colored\<close>, and the three styles of a status: decrease, no change, increase.\<close>

type_synonym style = "(string \<times> string) list"

record BaseJobManager =
  status_names :: "string list"
  status_diff_styles :: "(string \<times> style \<times> style \<times> style) list"
  threads :: int
  last_counts :: "int list"
  chunk_size_submit :: int
  chunk_size_cancel :: int
  chunk_size_cleanup :: int
  chunk_size_query :: int

definition default_status_names :: "string list" where
  "default_status_names = [''pending'', ''running'', ''finished'', ''retry'', ''failed'']"

definition default_status_diff_styles :: "(string \<times> style \<times> style \<times> style) list" where
  "default_status_diff_styles =
     [ (''pending'', [], [], [(''color'', ''green'')]),
       (''running'', [], [], [(''color'', ''green'')]),
       (''finished'', [], [], [(''color'', ''green'')]),
       (''retry'', [(''color'', ''green'')], [], [(''color'', ''red'')]),
       (''failed'', [], [], [(''color'', ''red''), (''style'', ''bright'')]) ]"

text \<open>
  \<open>BaseJobManager.__init__\<close>. The chunk sizes are class attributes, \<open>0\<close> in the base class;
  a backend overrides them, so they are fields here.
\<close>

definition BaseJobManager_init ::
  "string list option \<Rightarrow> (string \<times> style \<times> style \<times> style) list option \<Rightarrow> int \<Rightarrow> BaseJobManager" where
  "BaseJobManager_init status_names_a status_diff_styles_a threads_a =
     (let names = (case status_names_a of
                     Some l \<Rightarrow> if l \<noteq> [] then l else default_status_names
                   | None \<Rightarrow> default_status_names)
      in \<lparr> status_names = names,
           status_diff_styles = (case status_diff_styles_a of
                                   Some d \<Rightarrow> if d \<noteq> [] then d else default_status_diff_styles
                                 | None \<Rightarrow> default_status_diff_styles),
           threads = threads_a,
           last_counts = replicate (length names) 0,
           chunk_size_submit = 0, chunk_size_cancel = 0, chunk_size_cleanup = 0,
           chunk_size_query = 0 \<rparr>)"

text \<open>
  An atomic operation of a backend (\<open>submit\<close>, \<open>cancel\<close>, \<open>cleanup\<close>, \<open>query\<close>) with its
  keyword arguments fixed: it returns a value or raises.
\<close>

type_synonym atomic_op = "pyval \<Rightarrow> pyerr + pyval"

text \<open>
  \<open>get_async_result_silent\<close>: the value of the call behind an \<open>AsyncResult\<close>, with a
  raised exception returned instead.
\<close>

definition get_async_result_silent :: "pyerr + pyval \<Rightarrow> pyval" where
  "get_async_result_silent result = (case result of Inr v \<Rightarrow> v | Inl e \<Rightarrow> PExc e)"

text \<open>
  The lines under \<open># is chunking allowed?\<close>, the same in the four batch operations, with
  the class default \<open>dflt\<close> of the operation:
  \<^verbatim>\<open>
  if self.chunk_size_submit:
      chunk_size = max(chunk_size or self.chunk_size_submit, 0)
  else:
      chunk_size = 0
  \<close>
\<close>

definition batch_chunk_size :: "int \<Rightarrow> int option \<Rightarrow> int" where
  "batch_chunk_size dflt chunk_size =
     (if dflt \<noteq> 0
      then max (case chunk_size of None \<Rightarrow> dflt | Some c \<Rightarrow> if c \<noteq> 0 then c else dflt) 0
      else 0)"

text \<open>
  The variable \<open>chunks\<close> of the four batch operations: the arguments of the calls of the
  atomic operation, in the order of dispatch. A chunk is a list.
  \<^verbatim>\<open>
  chunking = chunk_size > 0
  job_files = make_list(job_files)
  chunks = list(iter_chunks(job_files, chunk_size)) if chunking else job_files
  \<close>
\<close>

definition batch_chunks :: "int \<Rightarrow> int option \<Rightarrow> pyval \<Rightarrow> pyval list" where
  "batch_chunks dflt chunk_size items =
     (let chunk_size1 = batch_chunk_size dflt chunk_size;
          chunking = chunk_size1 > 0;
          items1 = make_list items
      in if chunking then map PList (iter_chunks items1 (nat chunk_size1)) else items1)"

definition submit_chunks :: "BaseJobManager \<Rightarrow> pyval \<Rightarrow> int option \<Rightarrow> pyval list" where
  "submit_chunks self job_files chunk_size = batch_chunks (chunk_size_submit self) chunk_size job_files"

definition cancel_chunks :: "BaseJobManager \<Rightarrow> pyval \<Rightarrow> int option \<Rightarrow> pyval list" where
  "cancel_chunks self job_ids chunk_size = batch_chunks (chunk_size_cancel self) chunk_size job_ids"

definition cleanup_chunks :: "BaseJobManager \<Rightarrow> pyval \<Rightarrow> int option \<Rightarrow> pyval list" where
  "cleanup_chunks self job_ids chunk_size = batch_chunks (chunk_size_cleanup self) chunk_size job_ids"

definition query_chunks :: "BaseJobManager \<Rightarrow> pyval \<Rightarrow> int option \<Rightarrow> pyval list" where
  "query_chunks self job_ids chunk_size = batch_chunks (chunk_size_query self) chunk_size job_ids"

text \<open>
  The batch operations are modelled without a callback (\<open>callback=None\<close>). The thread pool
  only schedules the calls: every \<open>AsyncResult\<close> holds the outcome of its own call and the
  pool is joined before the results are read, so the list \<open>results\<close> is the list of the
  outcomes in the order of \<open>chunks\<close>, whatever \<open>threads\<close> is.
\<close>

text \<open>The loop of \<open>submit_batch\<close> over \<open>zip(chunks, results)\<close> when chunking.\<close>

fun submit_outputs :: "(pyval \<times> (pyerr + pyval)) list \<Rightarrow> pyval list \<Rightarrow> pyerr + pyval list" where
  "submit_outputs [] outputs = Inr outputs"
| "submit_outputs ((chunk, res) # rest) outputs =
     (let job_ids = get_async_result_silent res;
          job_ids1 = (if is_exception job_ids then PList (replicate (py_len chunk) job_ids)
                      else job_ids)
      in case py_iter job_ids1 of
           Inl e \<Rightarrow> Inl e
         | Inr ids \<Rightarrow> submit_outputs rest (outputs @ ids))"

definition submit_batch :: "atomic_op \<Rightarrow> BaseJobManager \<Rightarrow> pyval \<Rightarrow> int option \<Rightarrow> pyerr + pyval list" where
  "submit_batch submit self job_files chunk_size =
     (let chunking = batch_chunk_size (chunk_size_submit self) chunk_size > 0;
          chunks = submit_chunks self job_files chunk_size;
          results = map submit chunks
      in if chunking then submit_outputs (zip chunks results) []
         else Inr (flatten (PList (map get_async_result_silent results))))"

definition cancel_batch :: "atomic_op \<Rightarrow> BaseJobManager \<Rightarrow> pyval \<Rightarrow> int option \<Rightarrow> pyval list" where
  "cancel_batch cancel self job_ids chunk_size =
     (let chunks = cancel_chunks self job_ids chunk_size;
          results = map cancel chunks
      in filter truthy (flatten (PList (map get_async_result_silent results))))"

definition cleanup_batch :: "atomic_op \<Rightarrow> BaseJobManager \<Rightarrow> pyval \<Rightarrow> int option \<Rightarrow> pyval list" where
  "cleanup_batch cleanup self job_ids chunk_size =
     (let chunks = cleanup_chunks self job_ids chunk_size;
          results = map cleanup chunks
      in filter truthy (flatten (PList (map get_async_result_silent results))))"

text \<open>The two loops of \<open>query_batch\<close>: over \<open>zip(chunks, results)\<close> and over \<open>zip(job_ids, results)\<close>.\<close>

fun query_chunked ::
  "(pyval \<times> (pyerr + pyval)) list \<Rightarrow> (pyval \<times> pyval) list \<Rightarrow> pyerr + (pyval \<times> pyval) list" where
  "query_chunked [] query_data = Inr query_data"
| "query_chunked ((chunk, res) # rest) query_data =
     (let data = get_async_result_silent res;
          data1 = (if is_exception data
                   then (case py_iter chunk of
                           Inl e \<Rightarrow> Inl e
                         | Inr job_ids \<Rightarrow> map_sum id PDict (dict_from_keys job_ids data []))
                   else Inr data)
      in case data1 of
           Inl e \<Rightarrow> Inl e
         | Inr data2 \<Rightarrow>
             (case dict_update data2 query_data of
                Inl e \<Rightarrow> Inl e
              | Inr query_data1 \<Rightarrow> query_chunked rest query_data1))"

fun query_single ::
  "(pyval \<times> (pyerr + pyval)) list \<Rightarrow> (pyval \<times> pyval) list \<Rightarrow> pyerr + (pyval \<times> pyval) list" where
  "query_single [] query_data = Inr query_data"
| "query_single ((job_id, res) # rest) query_data =
     (case dict_setitem job_id (get_async_result_silent res) query_data of
        Inl e \<Rightarrow> Inl e
      | Inr query_data1 \<Rightarrow> query_single rest query_data1)"

definition query_batch ::
  "atomic_op \<Rightarrow> BaseJobManager \<Rightarrow> pyval \<Rightarrow> int option \<Rightarrow> pyerr + (pyval \<times> pyval) list" where
  "query_batch query self job_ids chunk_size =
     (let chunking = batch_chunk_size (chunk_size_query self) chunk_size > 0;
          job_ids1 = make_list job_ids;
          chunks = query_chunks self job_ids chunk_size;
          results = map query chunks
      in if chunking then query_chunked (zip chunks results) []
         else query_single (zip job_ids1 results) [])"

subsection \<open>The status line\<close>

text \<open>
  The arguments of \<open>status_line\<close> as the code tells them apart: \<open>last_counts\<close> is \<open>None\<close>,
  a flag or a list of counts; \<open>timestamp\<close> is a flag or a \<open>strftime\<close> format; \<open>align\<close> is a
  flag (or any other value that is not an integer, taken by its truth) or a width.
\<close>

datatype last_counts_arg = LcNone | LcBool bool | LcList "int list"

datatype timestamp_arg = TsBool bool | TsStr string

datatype align_arg = AlBool bool | AlInt int

text \<open>
  The formats \<open>%d\<close>, \<open>%+d\<close>, \<open>%<align>d\<close> and \<open>%+<align>d\<close>: a positive width pads on the
  left, a negative one (the flag \<open>-\<close>) on the right.
\<close>

definition show_signed :: "int \<Rightarrow> string" where
  "show_signed i = (if i < 0 then show_int i else CHR ''+'' # show_int i)"

definition pad_width :: "int \<Rightarrow> string \<Rightarrow> string" where
  "pad_width align s =
     (if align \<ge> 0 then replicate (nat align - length s) CHR '' '' @ s
      else s @ replicate (nat (- align) - length s) CHR '' '')"

definition count_fmt :: "int \<Rightarrow> int \<Rightarrow> string" where
  "count_fmt align x = pad_width align (show_int x)"

definition diff_fmt :: "int \<Rightarrow> int \<Rightarrow> string" where
  "diff_fmt align x = pad_width align (show_signed x)"

text \<open>\<open>style_idx = (diffs[i] > 0) + (diffs[i] >= 0)\<close> into the three styles of a status.\<close>

definition diff_style :: "style \<times> style \<times> style \<Rightarrow> int \<Rightarrow> style" where
  "diff_style styles d =
     (case styles of (dec, same, inc) \<Rightarrow> if d > 0 then inc else if d \<ge> 0 then same else dec)"

text \<open>
  The loop over \<open>enumerate(zip(self.status_names, counts))\<close>. \<open>diffs\<close> is \<open>None\<close> while the
  local variable is not assigned: reading it then is an \<open>UnboundLocalError\<close>. \<open>colored\<close> is
  the function of \<open>law.util\<close>, a parameter.
\<close>

fun status_items ::
  "(string \<Rightarrow> style \<Rightarrow> string) \<Rightarrow> BaseJobManager \<Rightarrow> int \<Rightarrow> bool \<Rightarrow> int list option \<Rightarrow> nat \<Rightarrow>
   (string \<times> int) list \<Rightarrow> string \<Rightarrow> pyerr + string" where
  "status_items colored self align color diffs i [] line = Inr line"
| "status_items colored self align color diffs i ((status, cnt) # rest) line =
     (let count1 = count_fmt align cnt;
          count2 = (if color then colored count1 [(''style'', ''bright'')] else count1);
          line1 = line @ '', '' @ status @ '': '' @ count2
      in case diffs of
           None \<Rightarrow> Inl (UnboundLocalError ''diffs'')
         | Some ds \<Rightarrow>
             if ds \<noteq> [] then
               (if i < length ds then
                  (let diff = diff_fmt align (ds ! i)
                   in if color then
                        (case map_of (status_diff_styles self) status of
                           None \<Rightarrow> Inl (KeyError status)
                         | Some styles \<Rightarrow>
                             status_items colored self align color diffs (Suc i) rest
                               (line1 @ '' ('' @ colored diff (diff_style styles (ds ! i)) @ '')''))
                      else status_items colored self align color diffs (Suc i) rest
                             (line1 @ '' ('' @ diff @ '')''))
                else Inl IndexError)
             else status_items colored self align color diffs (Suc i) rest line1)"

text \<open>
  \<open>BaseJobManager.status_line\<close>. \<open>strftime\<close> is the clock: it maps a format to the text of
  the current time. The result is the line or the exception raised, and the instance
  after the call. A \<open>last_counts\<close> that is not true is only ever tested for truth, so it is
  kept as the empty list.
\<close>

definition status_line ::
  "(string \<Rightarrow> string) \<Rightarrow> (string \<Rightarrow> style \<Rightarrow> string) \<Rightarrow> BaseJobManager \<Rightarrow> int list \<Rightarrow>
   last_counts_arg \<Rightarrow> int option \<Rightarrow> timestamp_arg \<Rightarrow> align_arg \<Rightarrow> bool \<Rightarrow>
   (pyerr + string) \<times> BaseJobManager" where
  "status_line strftime colored self counts last_counts_a sum_counts timestamp align color =
     (let n = length (status_names self);
          last_counts1 =
            (case last_counts_a of
               LcNone \<Rightarrow> []
             | LcBool b \<Rightarrow>
                 if b then (if last_counts self \<noteq> [] then last_counts self else replicate n 0)
                 else []
             | LcList l \<Rightarrow> l)
      in if last_counts1 \<noteq> [] \<and> length last_counts1 \<noteq> n then
           (Inl (Exception (show_nat n @ '' last status counts expected, got '' @
                            show_nat (length last_counts1))), self)
         else if length counts \<noteq> n then
           (Inl (Exception (show_nat n @ '' status counts expected, got '' @
                            show_nat (length counts))), self)
         else
           (let diffs = (if last_counts1 \<noteq> [] then Some (map2 (-) counts last_counts1) else None);
                align1 = (case align of AlBool b \<Rightarrow> if b then 4 else 0 | AlInt w \<Rightarrow> w);
                line0 = (case timestamp of
                           TsBool b \<Rightarrow> if b then strftime ''%H:%M:%S'' @ '': '' else []
                         | TsStr f \<Rightarrow> if f \<noteq> [] then strftime f @ '': '' else []);
                sum_counts1 = (case sum_counts of None \<Rightarrow> sum_list counts | Some s \<Rightarrow> s);
                line1 = line0 @ ''all: '' @ count_fmt align1 sum_counts1
            in case status_items colored self align1 color diffs 0
                      (zip (status_names self) counts) line1 of
                 Inl e \<Rightarrow> (Inl e, self)
               | Inr line \<Rightarrow> (Inr line, self\<lparr> last_counts := counts \<rparr>)))"

text \<open>
  Two readings of how a batch operation with the class default \<open>dflt\<close> and the argument
  \<open>chunk_size\<close> dispatches its items. \<open>dispatch_with k\<close> is the dispatch for a chunk size
  \<open>k\<close>: chunks of \<open>k\<close> items for a positive \<open>k\<close>, and every item on its own otherwise.
  \<open>spec_chunk_size\<close> is the choice in the words of the specification: the argument when one is
  given, the class default otherwise. \<open>gated_chunk_size\<close> lets the class default decide
  first: with a default of \<open>0\<close> nothing is chunked, otherwise the argument counts unless
  it is missing or \<open>0\<close>, and a negative size counts as \<open>0\<close>.
\<close>

definition dispatch_with :: "int \<Rightarrow> pyval \<Rightarrow> pyval list" where
  "dispatch_with k items =
     (if k > 0 then map PList (iter_chunks (make_list items) (nat k)) else make_list items)"

definition spec_chunk_size :: "int \<Rightarrow> int option \<Rightarrow> int" where
  "spec_chunk_size dflt chunk_size = (case chunk_size of Some c \<Rightarrow> c | None \<Rightarrow> dflt)"

definition gated_chunk_size :: "int \<Rightarrow> int option \<Rightarrow> int" where
  "gated_chunk_size dflt chunk_size =
     (if dflt = 0 then 0
      else case chunk_size of
             None \<Rightarrow> max dflt 0
           | Some c \<Rightarrow> if c = 0 then max dflt 0 else max c 0)"

subsection \<open>What an atomic operation answers\<close>

text \<open>
  The premises under which the batch operations are examined. \<open>is_single v\<close>: the value
  is one result, not a list and not a dictionary. \<open>one_result_per_item op r xs\<close>: called
  with one item \<open>x\<close> of \<open>xs\<close>, the operation returns \<open>r x\<close>, or raises the exception
  that \<open>r x\<close> is. \<open>list_per_chunk op r xs\<close>: called with a chunk of items of \<open>xs\<close>, it
  returns the list of their results, of the same length. \<open>dict_per_chunk op r xs\<close>: called
  with a chunk, it returns the dictionary from each job id of the chunk to its result.
\<close>

fun is_single :: "pyval \<Rightarrow> bool" where
  "is_single (PList xs) = False"
| "is_single (PDict d) = False"
| "is_single v = True"

definition one_result_per_item :: "atomic_op \<Rightarrow> (pyval \<Rightarrow> pyval) \<Rightarrow> pyval list \<Rightarrow> bool" where
  "one_result_per_item op r xs \<longleftrightarrow> (\<forall>x \<in> set xs. get_async_result_silent (op x) = r x)"

definition list_per_chunk :: "atomic_op \<Rightarrow> (pyval \<Rightarrow> pyval) \<Rightarrow> pyval list \<Rightarrow> bool" where
  "list_per_chunk op r xs \<longleftrightarrow>
     (\<forall>c. c \<noteq> [] \<and> set c \<subseteq> set xs \<longrightarrow> op (PList c) = Inr (PList (map r c)))"

definition dict_per_chunk :: "atomic_op \<Rightarrow> (pyval \<Rightarrow> pyval) \<Rightarrow> pyval list \<Rightarrow> bool" where
  "dict_per_chunk op r xs \<longleftrightarrow>
     (\<forall>c. c \<noteq> [] \<and> set c \<subseteq> set xs \<longrightarrow> op (PList c) = Inr (PDict (map (\<lambda>x. (x, r x)) c)))"

text \<open>
  \<open>list_or_raise op chunks\<close>: on each of the chunks the operation raises or returns a list
  as long as the chunk. \<open>dict_or_raise op chunks\<close>: on each of the chunks it raises or
  returns a dictionary whose keys are job ids of that chunk.
\<close>

definition list_or_raise :: "atomic_op \<Rightarrow> pyval list list \<Rightarrow> bool" where
  "list_or_raise op chunks \<longleftrightarrow>
     (\<forall>c \<in> set chunks.
        case op (PList c) of
          Inl e \<Rightarrow> True
        | Inr v \<Rightarrow> (case v of PList ys \<Rightarrow> length ys = length c | _ \<Rightarrow> False))"

definition dict_or_raise :: "atomic_op \<Rightarrow> pyval list list \<Rightarrow> bool" where
  "dict_or_raise op chunks \<longleftrightarrow>
     (\<forall>c \<in> set chunks.
        case op (PList c) of
          Inl e \<Rightarrow> True
        | Inr v \<Rightarrow> (case v of PDict d \<Rightarrow> fst ` set d \<subseteq> set c | _ \<Rightarrow> False))"

text \<open>The entries that one chunk adds to \<open>outputs\<close> in the loop of \<open>submit_batch\<close>.\<close>

definition chunk_output :: "atomic_op \<Rightarrow> pyval list \<Rightarrow> pyval list" where
  "chunk_output op c =
     (case op (PList c) of
        Inl e \<Rightarrow> replicate (length c) (PExc e)
      | Inr v \<Rightarrow> (case v of PList ys \<Rightarrow> ys | _ \<Rightarrow> []))"

text \<open>
  A chunked call and one of its chunks. \<open>batch_chunk_lists dflt cs xs\<close> are the chunks of
  the items \<open>xs\<close> for the class default \<open>dflt\<close> and the argument \<open>cs\<close>.
  \<open>raising_chunk op dflt cs xs j e\<close>: the call is chunked and the operation, applied to the
  whole chunk number \<open>j\<close>, raises \<open>e\<close>. \<open>chunk_positions dflt cs xs j\<close> are the positions
  in \<open>xs\<close> of the items of chunk number \<open>j\<close>.
\<close>

definition batch_chunk_lists :: "int \<Rightarrow> int option \<Rightarrow> pyval list \<Rightarrow> pyval list list" where
  "batch_chunk_lists dflt cs xs = iter_chunks xs (nat (batch_chunk_size dflt cs))"

definition raising_chunk :: "atomic_op \<Rightarrow> int \<Rightarrow> int option \<Rightarrow> pyval list \<Rightarrow> nat \<Rightarrow> pyerr \<Rightarrow> bool" where
  "raising_chunk op dflt cs xs j e \<longleftrightarrow>
     0 < batch_chunk_size dflt cs \<and> j < length (batch_chunk_lists dflt cs xs) \<and>
     op (PList (batch_chunk_lists dflt cs xs ! j)) = Inl e"

definition chunk_positions :: "int \<Rightarrow> int option \<Rightarrow> pyval list \<Rightarrow> nat \<Rightarrow> nat list" where
  "chunk_positions dflt cs xs j =
     filter (\<lambda>i. i div nat (batch_chunk_size dflt cs) = j) [0..<length xs]"

text \<open>Backends for the examples: job ids derived from the job file, a queue that is down.\<close>

fun example_result :: "pyval \<Rightarrow> pyval" where
  "example_result (PStr s) = PStr (s @ ''.id'')"
| "example_result v = PNone"

fun example_submit :: atomic_op where
  "example_submit (PList c) = Inr (PList (map example_result c))"
| "example_submit v = Inr (example_result v)"

fun example_cancel :: atomic_op where
  "example_cancel (PList c) = Inr (PList (map (\<lambda>x. PNone) c))"
| "example_cancel v = Inr PNone"

fun example_query :: atomic_op where
  "example_query (PList c) = Inr (PDict (map (\<lambda>x. (x, example_result x)) c))"
| "example_query v = Inr (example_result v)"

definition example_down :: atomic_op where
  "example_down v = Inl (BackendError ''queue is down'')"

definition example_jobs :: "pyval list" where
  "example_jobs = [PStr ''a'', PStr ''b'', PStr ''c'']"

text \<open>
  A backend that is down for every call that involves the job \<open>c\<close>, and a manager of a
  backend that sets every chunk size to two.
\<close>

fun example_flaky_submit :: atomic_op where
  "example_flaky_submit (PList c) =
     (if PStr ''c'' \<in> set c then Inl (BackendError ''queue is down'')
      else Inr (PList (map example_result c)))"
| "example_flaky_submit v =
     (if v = PStr ''c'' then Inl (BackendError ''queue is down'') else Inr (example_result v))"

fun example_flaky_query :: atomic_op where
  "example_flaky_query (PList c) =
     (if PStr ''c'' \<in> set c then Inl (BackendError ''queue is down'')
      else Inr (PDict (map (\<lambda>x. (x, example_result x)) c)))"
| "example_flaky_query v =
     (if v = PStr ''c'' then Inl (BackendError ''queue is down'') else Inr (example_result v))"

fun example_flaky_cancel :: atomic_op where
  "example_flaky_cancel (PList c) =
     (if PStr ''c'' \<in> set c then Inl (BackendError ''queue is down'') else Inr PNone)"
| "example_flaky_cancel v =
     (if v = PStr ''c'' then Inl (BackendError ''queue is down'') else Inr PNone)"

definition example_manager :: BaseJobManager where
  "example_manager =
     (BaseJobManager_init None None 1)
       \<lparr> chunk_size_submit := 2, chunk_size_cancel := 2, chunk_size_cleanup := 2,
         chunk_size_query := 2 \<rparr>"

subsection \<open>Text search and replacement\<close>

text \<open>
  The character classes \<open>\w\<close> and \<open>\s\<close> of \<open>re\<close> on text patterns, for the code points that
  a \<open>char\<close> covers: letters, digits and the underscore, and the white space.
\<close>

definition is_word_char :: "char \<Rightarrow> bool" where
  "is_word_char c =
     (let n = (of_char c :: nat)
      in (48 \<le> n \<and> n \<le> 57) \<or> (65 \<le> n \<and> n \<le> 90) \<or> n = 95 \<or> (97 \<le> n \<and> n \<le> 122) \<or>
         n = 170 \<or> n = 178 \<or> n = 179 \<or> n = 181 \<or> n = 185 \<or> n = 186 \<or>
         (188 \<le> n \<and> n \<le> 190) \<or> (192 \<le> n \<and> n \<le> 214) \<or> (216 \<le> n \<and> n \<le> 246) \<or>
         248 \<le> n)"

definition is_space_char :: "char \<Rightarrow> bool" where
  "is_space_char c =
     (let n = (of_char c :: nat)
      in (9 \<le> n \<and> n \<le> 13) \<or> (28 \<le> n \<and> n \<le> 32) \<or> n = 133 \<or> n = 160)"

text \<open>
  \<open>s.replace(old, new)\<close>: the occurrences of \<open>old\<close> are replaced from the left and do not
  overlap; an empty \<open>old\<close> puts \<open>new\<close> around every character.
\<close>

function replace_from :: "string \<Rightarrow> string \<Rightarrow> string \<Rightarrow> string" where
  "replace_from old new s =
     (if s = [] then []
      else if old \<noteq> [] \<and> take (length old) s = old
        then new @ replace_from old new (drop (length old) s)
      else hd s # replace_from old new (tl s))"
  by pat_completeness auto
termination
  by (relation "measure (\<lambda>(old, new, s). length s)") (auto simp: neq_Nil_conv)

declare replace_from.simps [simp del]

definition str_replace :: "string \<Rightarrow> string \<Rightarrow> string \<Rightarrow> string" where
  "str_replace s old new =
     (if old = [] then new @ concat (map (\<lambda>c. c # new) s) else replace_from old new s)"

text \<open>
  \<open>render_key_cre = re.compile(r"\{\{(\w+)\}\}")\<close>. \<open>match_key_at s\<close> is the group of a
  match at the very start of \<open>s\<close>: the longest run of word characters after \<open>{{\<close>, which
  has to be followed by \<open>}}\<close> (a shorter run would be followed by a word character).
  \<open>render_key_search\<close> is \<open>render_key_cre.search(s)\<close>, the group of the leftmost match;
  \<open>render_key_strip\<close> is \<open>render_key_cre.sub("", s)\<close>.
\<close>

definition match_key_at :: "string \<Rightarrow> string option" where
  "match_key_at s =
     (if take 2 s = ''{{'' then
        (let word = takeWhile is_word_char (drop 2 s);
             rest = dropWhile is_word_char (drop 2 s)
         in if word \<noteq> [] \<and> take 2 rest = ''}}'' then Some word else None)
      else None)"

fun render_key_search :: "string \<Rightarrow> string option" where
  "render_key_search [] = None"
| "render_key_search (c # cs) =
     (case match_key_at (c # cs) of
        Some word \<Rightarrow> Some word
      | None \<Rightarrow> render_key_search cs)"

function render_key_strip :: "string \<Rightarrow> string" where
  "render_key_strip s =
     (if s = [] then []
      else case match_key_at s of
             Some word \<Rightarrow> render_key_strip (drop (length word + 4) s)
           | None \<Rightarrow> hd s # render_key_strip (tl s))"
  by pat_completeness auto
termination
  by (relation "measure length") (auto simp: neq_Nil_conv)

declare render_key_strip.simps [simp del]

text \<open>
  \<open>re.sub(r"\_\_law\_job\_postfix\_\_:([^\s]+)", postfix_fn, value)\<close>: after the marker, the
  group is the longest run of characters that are not white space, and it is not empty.
\<close>

definition postfix_marker :: string where
  "postfix_marker = ''__law_job_postfix__:''"

function sub_postfix_markers :: "(string \<Rightarrow> string) \<Rightarrow> string \<Rightarrow> string" where
  "sub_postfix_markers postfix_fn s =
     (if s = [] then []
      else if take (length postfix_marker) s = postfix_marker
              \<and> takeWhile (\<lambda>c. \<not> is_space_char c) (drop (length postfix_marker) s) \<noteq> []
        then postfix_fn (takeWhile (\<lambda>c. \<not> is_space_char c) (drop (length postfix_marker) s))
             @ sub_postfix_markers postfix_fn
                 (dropWhile (\<lambda>c. \<not> is_space_char c) (drop (length postfix_marker) s))
      else hd s # sub_postfix_markers postfix_fn (tl s))"
  by pat_completeness auto
termination
  by (relation "measure (\<lambda>(postfix_fn, s). length s)")
    (auto simp: neq_Nil_conv postfix_marker_def intro: le_less_trans[OF length_dropWhile_le])

declare sub_postfix_markers.simps [simp del]

subsection \<open>BaseJobFileFactory\<close>

text \<open>
  What the factory takes from its surroundings, as parameters: \<open>fnmatch.fnmatch\<close>, the
  resolution of a path \<open>os.path.realpath(os.path.expandvars(os.path.expanduser(path)))\<close>,
  \<open>create_hash\<close> of \<open>law.util\<close> and \<open>json.dumps\<close> on a dictionary of strings.
\<close>

record py_env =
  fnmatch :: "string \<Rightarrow> string \<Rightarrow> bool"
  full_path :: "string \<Rightarrow> string"
  create_hash :: "string \<Rightarrow> string"
  json_dumps :: "(string \<times> string) list \<Rightarrow> string"

text \<open>\<open>os.path.split\<close> and \<open>os.path.join\<close> of two parts, on POSIX paths.\<close>

definition os_path_split :: "string \<Rightarrow> string \<times> string" where
  "os_path_split p =
     (let tail = rev (takeWhile (\<lambda>c. c \<noteq> CHR ''/'') (rev p));
          head = take (length p - length tail) p
      in (if head \<noteq> [] \<and> head \<noteq> replicate (length head) CHR ''/''
          then rev (dropWhile (\<lambda>c. c = CHR ''/'') (rev head)) else head,
          tail))"

definition os_path_join :: "string \<Rightarrow> string \<Rightarrow> string" where
  "os_path_join a b =
     (if take 1 b = ''/'' then b
      else if a = [] \<or> last a = CHR ''/'' then a @ b
      else a @ ''/'' @ b)"

text \<open>The \<open>postfix\<close> argument: \<open>None\<close>, a string, or a dictionary from patterns to postfixes.\<close>

datatype postfix_arg = PfNone | PfStr string | PfDict "(string \<times> string) list"

text \<open>\<open>bool(postfix)\<close>\<close>

fun postfix_truthy :: "postfix_arg \<Rightarrow> bool" where
  "postfix_truthy PfNone = False"
| "postfix_truthy (PfStr s) = (s \<noteq> [])"
| "postfix_truthy (PfDict d) = (d \<noteq> [])"

text \<open>
  The \<open>for \<dots> else\<close> over the patterns of a dictionary in \<open>postfix_file\<close>: the postfix of
  the first pattern that matches the base name, the empty string when none does.
\<close>

fun matching_postfix :: "py_env \<Rightarrow> string \<Rightarrow> (string \<times> string) list \<Rightarrow> string" where
  "matching_postfix env basename [] = []"
| "matching_postfix env basename ((pattern, pf) # rest) =
     (if fnmatch env basename pattern then pf else matching_postfix env basename rest)"

text \<open>
  \<open>postfix_file\<close>. A \<open>_postfix\<close> that is \<open>None\<close> is only tested for truth or replaced by
  \<open>""\<close>, so it is kept as the empty string. \<open>basename.split(".", 1)\<close> cuts at the first
  dot, and the postfix goes in front of that dot.
\<close>

definition postfix_file :: "py_env \<Rightarrow> string \<Rightarrow> postfix_arg \<Rightarrow> bool \<Rightarrow> string" where
  "postfix_file env pth pfx add_hash =
     (let (dirname, basename) = os_path_split pth;
          postfix1 = (case pfx of
                        PfNone \<Rightarrow> []
                      | PfStr s \<Rightarrow> s
                      | PfDict d \<Rightarrow> matching_postfix env basename d);
          postfix2 = (if add_hash then ''_'' @ create_hash env (full_path env pth) @ postfix1
                      else postfix1)
      in if postfix2 \<noteq> [] then
           os_path_join dirname
             (takeWhile (\<lambda>c. c \<noteq> CHR ''.'') basename @ postfix2 @
              dropWhile (\<lambda>c. c \<noteq> CHR ''.'') basename)
         else pth)"

definition postfix_input_file :: "py_env \<Rightarrow> string \<Rightarrow> postfix_arg \<Rightarrow> string" where
  "postfix_input_file env pth pfx = postfix_file env pth pfx True"

definition postfix_output_file :: "py_env \<Rightarrow> string \<Rightarrow> postfix_arg \<Rightarrow> string" where
  "postfix_output_file env pth pfx = postfix_file env pth pfx False"

definition render_string :: "string \<Rightarrow> string \<Rightarrow> string \<Rightarrow> string" where
  "render_string s key value = str_replace s (''{{'' @ key @ ''}}'') value"

text \<open>\<open>render_variables.get(sub_key, "")\<close> on a dictionary in insertion order.\<close>

definition dict_get :: "(string \<times> pyval) list \<Rightarrow> string \<Rightarrow> pyval" where
  "dict_get d k = (case map_of d k of Some v \<Rightarrow> v | None \<Rightarrow> PStr [])"

text \<open>
  The \<open>while True\<close> loop of \<open>linearize_render_variables\<close> on one value. It may run forever:
  the result is \<open>None\<close> then, and otherwise the value without a key left, or the
  \<open>TypeError\<close> of \<open>str.replace\<close> for a replacement that is not a string.
\<close>

partial_function (option) linearize_value ::
  "(string \<times> pyval) list \<Rightarrow> string \<Rightarrow> (pyerr + string) option" where
  "linearize_value render_variables value =
     (case render_key_search value of
        None \<Rightarrow> Some (Inr value)
      | Some sub_key \<Rightarrow>
          (case dict_get render_variables sub_key of
             PStr v \<Rightarrow> linearize_value render_variables (render_string value sub_key v)
           | _ \<Rightarrow> Some (Inl TypeError)))"

text \<open>The \<open>for\<close> loop of \<open>linearize_render_variables\<close> over the items, filling \<open>linearized\<close>.\<close>

fun linearize_items ::
  "(string \<times> pyval) list \<Rightarrow> (string \<times> pyval) list \<Rightarrow> (string \<times> string) list \<Rightarrow>
   (pyerr + (string \<times> string) list) option" where
  "linearize_items render_variables [] linearized = Some (Inr linearized)"
| "linearize_items render_variables ((key, value) # rest) linearized =
     (case value of
        PStr v \<Rightarrow>
          (case linearize_value render_variables v of
             None \<Rightarrow> None
           | Some (Inl e) \<Rightarrow> Some (Inl e)
           | Some (Inr v') \<Rightarrow> linearize_items render_variables rest (dict_set key v' linearized))
      | _ \<Rightarrow> Some (Inl (Exception (''render variables must be strings, found a value for key '' @ key))))"

text \<open>
  \<open>linearize_render_variables\<close>: \<open>None\<close> when the call does not return, otherwise the
  exception raised or the linearized dictionary with the entry \<open>render_variables\<close> added.
\<close>

definition linearize_render_variables ::
  "py_env \<Rightarrow> (string \<times> pyval) list \<Rightarrow> (pyerr + (string \<times> string) list) option" where
  "linearize_render_variables env render_variables =
     (case linearize_items render_variables render_variables [] of
        None \<Rightarrow> None
      | Some (Inl e) \<Rightarrow> Some (Inl e)
      | Some (Inr linearized) \<Rightarrow>
          (let dumped = json_dumps env linearized;
               vars_str = b64encode (six_b (if dumped \<noteq> [] then dumped else ''-''))
           in Some (Inr (dict_set ''render_variables'' vars_str linearized))))"

text \<open>
  The file system as far as \<open>render_file\<close> sees it: a path leads to nothing, to a
  directory, to a file whose content decodes to a text, or to a file whose content does
  not decode. Failures of \<open>open\<close> itself (permissions, a missing directory for \<open>dst\<close>) are
  not modelled.
\<close>

datatype node = Directory | TextFile string | BinaryFile

type_synonym filesystem = "string \<Rightarrow> node option"

text \<open>\<open>os.path.isfile\<close>\<close>

definition isfile :: "filesystem \<Rightarrow> string \<Rightarrow> bool" where
  "isfile fs p = (case fs p of Some (TextFile t) \<Rightarrow> True | Some BinaryFile \<Rightarrow> True | _ \<Rightarrow> False)"

text \<open>The \<open>for\<close> loop of \<open>render_file\<close> over the render variables.\<close>

fun render_loop :: "py_env \<Rightarrow> postfix_arg \<Rightarrow> (string \<times> pyval) list \<Rightarrow> string \<Rightarrow> pyerr + string" where
  "render_loop env pfx [] content = Inr content"
| "render_loop env pfx ((key, value) # rest) content =
     (case value of
        PStr v \<Rightarrow>
          (let value1 = (if postfix_truthy pfx
                         then sub_postfix_markers (\<lambda>p. postfix_input_file env p pfx) v
                         else v)
           in render_loop env pfx rest (render_string content key value1))
      | _ \<Rightarrow> Inl TypeError)"

text \<open>
  \<open>render_file\<close>: what the call returns or raises, and the file system after it. The
  arguments \<open>path\<close> and \<open>postfix\<close> of the source are \<open>pth\<close> and \<open>pfx\<close> here and in
  \<open>postfix_file\<close>, the names being taken by the fields of \<open>JobInputFile\<close>.
\<close>

definition render_file ::
  "py_env \<Rightarrow> filesystem \<Rightarrow> string \<Rightarrow> string \<Rightarrow> (string \<times> pyval) list \<Rightarrow> postfix_arg \<Rightarrow> bool \<Rightarrow>
   (pyerr + unit) \<times> filesystem" where
  "render_file env fs src dst render_variables pfx silent =
     (if \<not> isfile fs src then
        (Inl (IOError (''source file for rendering does not exist: '' @ src)), fs)
      else case fs src of
             Some (TextFile content) \<Rightarrow>
               (case render_loop env pfx render_variables content of
                  Inl e \<Rightarrow> (Inl e, fs)
                | Inr content1 \<Rightarrow>
                    (Inr (), fs(dst \<mapsto> TextFile (render_key_strip content1))))
           | _ \<Rightarrow> if silent then (Inr (), fs) else (Inl UnicodeDecodeError, fs))"

declare linearize_value.simps [code]

text \<open>
  Surroundings for the examples: every pattern but \<open>*\<close> matches nothing, paths resolve to
  themselves, the hash is a fixed text.
\<close>

definition example_env :: py_env where
  "example_env =
     \<lparr> fnmatch = (\<lambda>name pattern. pattern = ''*''),
       full_path = (\<lambda>p. p),
       create_hash = (\<lambda>p. ''abc123''),
       json_dumps = (\<lambda>d. ''{}'') \<rparr>"

subsection \<open>Render variables written as templates\<close>

text \<open>
  A value written from pieces: a character of text other than an opening brace, or a
  token \<open>{{name}}\<close>. \<open>unparse\<close> is the text of the value. A token is well formed when its
  name is a non-empty run of word characters. \<open>render_templates\<close> turns a mapping of such
  values into the render variables that \<open>linearize_render_variables\<close> receives.
\<close>

datatype seg = Lit char | Tok string

fun unparse :: "seg list \<Rightarrow> string" where
  "unparse [] = []"
| "unparse (Lit c # segs) = c # unparse segs"
| "unparse (Tok k # segs) = ''{{'' @ k @ ''}}'' @ unparse segs"

fun wf_seg :: "seg \<Rightarrow> bool" where
  "wf_seg (Lit c) = (c \<noteq> CHR ''{'')"
| "wf_seg (Tok k) = (k \<noteq> [] \<and> list_all is_word_char k)"

fun tok_names :: "seg list \<Rightarrow> string list" where
  "tok_names [] = []"
| "tok_names (Lit c # segs) = tok_names segs"
| "tok_names (Tok k # segs) = k # tok_names segs"

definition render_templates :: "(string \<times> seg list) list \<Rightarrow> (string \<times> pyval) list" where
  "render_templates tv = map (\<lambda>(k, segs). (k, PStr (unparse segs))) tv"

text \<open>
  The references of a mapping are acyclic when its keys can be ranked so that a token
  that names a key of the mapping occurs only in values of keys of a higher rank.
\<close>

definition acyclic_templates :: "(string \<Rightarrow> nat) \<Rightarrow> (string \<times> seg list) list \<Rightarrow> bool" where
  "acyclic_templates rank tv \<longleftrightarrow>
     (\<forall>(k, segs) \<in> set tv.
        list_all wf_seg segs \<and>
        (\<forall>k' \<in> set (tok_names segs). k' \<in> fst ` set tv \<longrightarrow> rank k' < rank k))"

text \<open>The value of a token in a mapping of templates: nothing for a name that is not a key.\<close>

definition template_of :: "(string \<times> seg list) list \<Rightarrow> string \<Rightarrow> seg list" where
  "template_of tv k = (case map_of tv k of Some segs \<Rightarrow> segs | None \<Rightarrow> [])"

text \<open>Every token \<open>k\<close> of a template replaced by the pieces \<open>sk\<close>.\<close>

fun subst_tok :: "string \<Rightarrow> seg list \<Rightarrow> seg list \<Rightarrow> seg list" where
  "subst_tok k sk [] = []"
| "subst_tok k sk (Lit c # segs) = Lit c # subst_tok k sk segs"
| "subst_tok k sk (Tok k' # segs) =
     (if k' = k then sk @ subst_tok k sk segs else Tok k' # subst_tok k sk segs)"

text \<open>
  The measure of a template under a ranking: the ranks of its tokens, as a multiset, a
  token that names no key counting as the least.
\<close>

definition tok_weight :: "(string \<Rightarrow> nat) \<Rightarrow> (string \<times> seg list) list \<Rightarrow> string \<Rightarrow> nat" where
  "tok_weight rank tv k = (if k \<in> fst ` set tv then Suc (rank k) else 0)"

definition tok_weights :: "(string \<Rightarrow> nat) \<Rightarrow> (string \<times> seg list) list \<Rightarrow> seg list \<Rightarrow> nat multiset" where
  "tok_weights rank tv segs = mset (map (tok_weight rank tv) (tok_names segs))"

text \<open>The two variables that refer to each other, and a chain of three variables.\<close>

definition example_cycle :: "(string \<times> pyval) list" where
  "example_cycle = [(''a'', PStr ''{{b}}''), (''b'', PStr ''{{a}}'')]"

definition example_chain :: "(string \<times> seg list) list" where
  "example_chain =
     [ (''a'', [Lit CHR ''T'', Lit CHR ''o'', Lit CHR ''m'']),
       (''b'', [Lit CHR ''H'', Lit CHR ''i'', Lit CHR '' '', Tok ''a'', Lit CHR ''!'']),
       (''c'', [Tok ''b'', Lit CHR '' '', Tok ''b'', Tok ''x'']) ]"

definition example_rank :: "string \<Rightarrow> nat" where
  "example_rank k = (if k = ''c'' then 2 else if k = ''b'' then 1 else 0)"

section \<open>Properties\<close>

subsection \<open>Text helpers\<close>

lemma show_nat_nonempty: "show_nat n \<noteq> []"
  by (subst show_nat.simps) simp

lemma show_int_nonempty: "show_int i \<noteq> []"
  by (simp add: show_int_def show_nat_nonempty)

lemma str_join_empty_iff:
  "str_join sep l = [] \<longleftrightarrow> l = [] \<or> l = [[]] \<or> (sep = [] \<and> set l \<subseteq> {[]})"
  by (induction sep l rule: str_join.induct) auto

lemma str_join_map_show_int_empty: "str_join '' '' (map show_int bs) = [] \<longleftrightarrow> bs = []"
  by (cases bs) (auto simp: str_join_empty_iff show_int_nonempty)

subsection \<open>JobInputFile\<close>

text \<open>
  C8. A job input file built with \<open>copy=False\<close> and no other flag stores \<open>share=False\<close>,
  \<open>postfix=False\<close> and \<open>render_local=False\<close> and logs nothing; built with \<open>copy=False\<close>
  and the conflicting \<open>postfix=True\<close> it is still constructed, stores \<open>copy=False\<close> and
  \<open>postfix=True\<close>, and logs exactly one warning, the one about postfixing without copying.
\<close>

theorem JobInputFile_copy_false:
  "JobInputFile_init (PathStr p) (Some False) None None None None None None =
     (\<lparr> path = p, copy = False, share = False, forward = False, postfix = False,
        render_local = False, render_job = False \<rparr>, [])
   \<and> JobInputFile_init (PathStr p) (Some False) None None (Some True) None None None =
     (\<lparr> path = p, copy = False, share = False, forward = False, postfix = True,
        render_local = False, render_job = False \<rparr>, [warn_postfix p])"
  by (simp add: JobInputFile_init_def maybe_set_def residual_def)

subsection \<open>JobArguments\<close>

lemma encode_string_spec: "encode_string s = spec_encode_string s"
  by (simp add: encode_string_def spec_encode_string_def six_b_def)

lemma encode_list_spec:
  "encode_list l = (if l = [[]] then b64encode ''-'' else spec_encode_list l)"
  by (auto simp: encode_list_def spec_encode_list_def six_b_def Let_def str_join_empty_iff)

lemma encode_list_branches: "encode_list (map show_int bs) = spec_encode_list (map show_int bs)"
  by (cases bs) (auto simp: encode_list_spec show_int_nonempty)

text \<open>
  C9, as stated, fails: the placeholder is chosen when the joined text is empty, not when
  the list is. A dashboard list holding one empty string is encoded as the placeholder
  \<open>LQ==\<close>, where joining its elements and encoding the result gives the empty text.
\<close>

theorem get_args_sentinel_counterexample:
  "get_args \<lparr> task_cls = \<lparr> cls_module = ''tasks'', cls_name = ''MyTask'' \<rparr>, task_params = ''--n 1'',
              branches = [0], auto_retry = False, dashboard_data = [''''] \<rparr>
   \<noteq> [ ''tasks'', ''MyTask'', spec_encode_string ''--n 1'', spec_encode_list [''0''],
       ''no'', spec_encode_list [''''] ]"
  by (simp add: get_args_def encode_list_def spec_encode_list_def six_b_def
      b64_char_def b64_alphabet_def)

text \<open>
  C9, amended. \<open>get_args\<close> returns six tokens in this order: module name, type name, the
  encoded parameters, the encoded branches, \<open>yes\<close> or \<open>no\<close>, the encoded dashboard data.
  A string is base64-encoded with the empty string first replaced by \<open>-\<close>; a list is
  joined by single spaces and base64-encoded, with \<open>-\<close> in place of the joined text when
  that text is empty, which is the case for the empty list and for the list holding one
  empty string. \<open>join\<close> is the six tokens separated by single spaces.
\<close>

theorem get_args_tokens:
  "get_args self =
     [ cls_module (task_cls self),
       cls_name (task_cls self),
       spec_encode_string (task_params self),
       spec_encode_list (map show_int (branches self)),
       (if auto_retry self then ''yes'' else ''no''),
       (if dashboard_data self = [''''] then b64encode ''-''
        else spec_encode_list (dashboard_data self)) ]
   \<and> join self =
       cls_module (task_cls self) @ '' '' @ cls_name (task_cls self) @ '' '' @
       spec_encode_string (task_params self) @ '' '' @
       spec_encode_list (map show_int (branches self)) @ '' '' @
       (if auto_retry self then ''yes'' else ''no'') @ '' '' @
       (if dashboard_data self = [''''] then b64encode ''-''
        else spec_encode_list (dashboard_data self))"
proof -
  have dash: "encode_list (dashboard_data self) =
      (if dashboard_data self = [''''] then b64encode ''-''
       else spec_encode_list (dashboard_data self))"
    by (rule encode_list_spec)
  show ?thesis
    by (simp add: join_def get_args_def encode_string_spec encode_list_branches dash
        encode_bool_def)
qed

subsection \<open>The status line\<close>

lemma status_items_unbound:
  "items \<noteq> [] \<Longrightarrow> status_items colored self align color None i items line = Inl (UnboundLocalError ''diffs'')"
  by (cases items) (auto simp: Let_def)

lemma status_line_result:
  "status_line strftime colored self counts lc sum_counts timestamp align color = (r, self') \<Longrightarrow>
   (case r of Inl e \<Rightarrow> self' = self | Inr line \<Rightarrow> self' = self\<lparr> last_counts := counts \<rparr>)"
  unfolding status_line_def Let_def
  by (auto split: if_splits sum.splits)

lemma status_line_counts_mismatch:
  assumes "length counts \<noteq> length (status_names self)"
  shows "\<exists>e. status_line strftime colored self counts lc sum_counts timestamp align color = (Inl e, self)"
  using assms by (auto simp: status_line_def Let_def)

lemma status_line_last_counts_mismatch:
  assumes "length l \<noteq> length (status_names self)"
  shows "\<exists>e. status_line strftime colored self counts (LcList l) sum_counts timestamp align color = (Inl e, self)"
proof (cases "length counts = length (status_names self)")
  case False
  then show ?thesis by (rule status_line_counts_mismatch)
next
  case True
  show ?thesis
  proof (cases "l = []")
    case False
    with assms show ?thesis by (auto simp: status_line_def Let_def)
  next
    case Nil: True
    with assms have "status_names self \<noteq> []" by auto
    with True have "zip (status_names self) counts \<noteq> []"
      by (cases "status_names self"; cases counts) auto
    then show ?thesis
      using True Nil by (simp add: status_line_def Let_def status_items_unbound)
  qed
qed

text \<open>
  C3. On a manager constructed with the default status names, \<open>status_line\<close> with the
  counts \<open>[2,0,0,0,0]\<close>, no \<open>last_counts\<close> and no timestamp does not return the line of the
  docstring: \<open>diffs\<close> is assigned only under \<open>if last_counts:\<close> and read in the loop, so
  the call raises \<open>UnboundLocalError\<close> and stores nothing. The second call, with the counts
  \<open>[0,2,0,0,0]\<close> and \<open>last_counts=True\<close>, therefore compares with the zeros of the
  constructor and reports \<open>pending: 0 (+0)\<close>, not \<open>pending: 0 (-2)\<close>.
\<close>

theorem status_line_first_call:
  "status_line strftime colored (BaseJobManager_init None None n) [2, 0, 0, 0, 0] LcNone None
     (TsBool False) align color
   = (Inl (UnboundLocalError ''diffs''), BaseJobManager_init None None n)
   \<and> status_line strftime colored (BaseJobManager_init None None n) [0, 2, 0, 0, 0] (LcBool True) None
     (TsBool False) (AlBool False) False
   = (Inr ''all: 2, pending: 0 (+0), running: 2 (+2), finished: 0 (+0), retry: 0 (+0), failed: 0 (+0)'',
      (BaseJobManager_init None None n)\<lparr> last_counts := [0, 2, 0, 0, 0] \<rparr>)"
  by (simp add: status_line_def BaseJobManager_init_def default_status_names_def Let_def
      count_fmt_def diff_fmt_def pad_width_def show_int_def show_signed_def digit_char_def show_nat.simps)

text \<open>
  C10. A call of \<open>status_line\<close> whose \<open>counts\<close>, or whose explicitly given list
  \<open>last_counts\<close>, has a length other than that of \<open>status_names\<close> raises and leaves the
  instance as it was; and whatever the arguments, a call that raises leaves the instance
  unchanged, while a call that returns a line has stored exactly the reported counts as
  \<open>last_counts\<close>.
\<close>

theorem status_line_atomic:
  "(length counts \<noteq> length (status_names self) \<or>
    (\<exists>l. lc = LcList l \<and> length l \<noteq> length (status_names self))
    \<longrightarrow> (\<exists>e. status_line strftime colored self counts lc sum_counts timestamp align color = (Inl e, self)))
   \<and> (\<forall>r self'. status_line strftime colored self counts lc sum_counts timestamp align color = (r, self')
        \<longrightarrow> (case r of Inl e \<Rightarrow> self' = self | Inr line \<Rightarrow> self' = self\<lparr> last_counts := counts \<rparr>))"
proof (intro conjI impI allI)
  assume "length counts \<noteq> length (status_names self) \<or>
    (\<exists>l. lc = LcList l \<and> length l \<noteq> length (status_names self))"
  then show "\<exists>e. status_line strftime colored self counts lc sum_counts timestamp align color = (Inl e, self)"
  proof
    assume "length counts \<noteq> length (status_names self)"
    then show ?thesis by (rule status_line_counts_mismatch)
  next
    assume "\<exists>l. lc = LcList l \<and> length l \<noteq> length (status_names self)"
    then obtain l where "lc = LcList l" "length l \<noteq> length (status_names self)" by blast
    then show ?thesis by (simp add: status_line_last_counts_mismatch)
  qed
next
  fix r self'
  assume "status_line strftime colored self counts lc sum_counts timestamp align color = (r, self')"
  then show "case r of Inl e \<Rightarrow> self' = self | Inr line \<Rightarrow> self' = self\<lparr> last_counts := counts \<rparr>"
    by (rule status_line_result)
qed

theorem status_line_atomic_witness:
  "length [1, 2 :: int] \<noteq> length (status_names (BaseJobManager_init None None 1)) \<and>
   (\<exists>e. status_line (\<lambda>f. ''12:00:00'') (\<lambda>s st. s) (BaseJobManager_init None None 1) [1, 2] LcNone None
      (TsBool False) (AlBool False) False = (Inl e, BaseJobManager_init None None 1))"
  using status_line_atomic [of "[1, 2]" "BaseJobManager_init None None 1" LcNone
      "\<lambda>f. ''12:00:00''" "\<lambda>s st. s" None "TsBool False" "AlBool False" False]
  by (simp add: BaseJobManager_init_def default_status_names_def)

subsection \<open>The chunk size of a batch operation\<close>

lemma batch_chunks_gated:
  "batch_chunks dflt chunk_size items = dispatch_with (gated_chunk_size dflt chunk_size) items"
  by (auto simp: batch_chunks_def batch_chunk_size_def dispatch_with_def gated_chunk_size_def
      Let_def max_def split: option.splits)

text \<open>
  C4, as stated, fails: the base class has the default chunk size \<open>0\<close>, and with it the
  argument \<open>chunk_size=2\<close> is ignored: three job files are dispatched one by one, not as
  the chunks \<open>[a, b]\<close> and \<open>[c]\<close>.
\<close>

theorem explicit_chunk_size_counterexample:
  "submit_chunks (BaseJobManager_init None None 1) (PList [PStr ''a'', PStr ''b'', PStr ''c'']) (Some 2)
     = [PStr ''a'', PStr ''b'', PStr ''c'']
   \<and> dispatch_with (spec_chunk_size (chunk_size_submit (BaseJobManager_init None None 1)) (Some 2))
         (PList [PStr ''a'', PStr ''b'', PStr ''c''])
     = [PList [PStr ''a'', PStr ''b''], PList [PStr ''c'']]"
  by (simp add: submit_chunks_def batch_chunks_def batch_chunk_size_def BaseJobManager_init_def
      dispatch_with_def spec_chunk_size_def Let_def iter_chunks.simps)

text \<open>
  C4, amended. In each of the four batch operations the configured default decides first:
  when it is \<open>0\<close>, every item is dispatched on its own, whatever \<open>chunk_size\<close> the caller
  passes. When it is not \<open>0\<close>, the chunk size is the caller's argument if one is given and
  is not \<open>0\<close>, and the configured default otherwise, a negative value counting as \<open>0\<close>;
  a positive chunk size dispatches chunks of that size, the chunk size \<open>0\<close> every item on
  its own.
\<close>

theorem chunk_size_gated_by_default:
  "submit_chunks self items chunk_size
     = dispatch_with (gated_chunk_size (chunk_size_submit self) chunk_size) items
   \<and> cancel_chunks self items chunk_size
     = dispatch_with (gated_chunk_size (chunk_size_cancel self) chunk_size) items
   \<and> cleanup_chunks self items chunk_size
     = dispatch_with (gated_chunk_size (chunk_size_cleanup self) chunk_size) items
   \<and> query_chunks self items chunk_size
     = dispatch_with (gated_chunk_size (chunk_size_query self) chunk_size) items"
  by (simp add: submit_chunks_def cancel_chunks_def cleanup_chunks_def query_chunks_def
      batch_chunks_gated)

subsection \<open>Chunks\<close>

lemma iter_chunks_Nil: "0 < k \<Longrightarrow> iter_chunks [] k = []"
  by (simp add: iter_chunks.simps)

lemma iter_chunks_Cons:
  "0 < k \<Longrightarrow> xs \<noteq> [] \<Longrightarrow> iter_chunks xs k = take k xs # iter_chunks (drop k xs) k"
  by (subst iter_chunks.simps) simp

lemma concat_iter_chunks: "0 < k \<Longrightarrow> concat (iter_chunks xs k) = xs"
proof (induction xs k rule: iter_chunks.induct)
  case (1 l sz)
  show ?case
  proof (cases "l = []")
    case True
    with 1 show ?thesis by (simp add: iter_chunks_Nil)
  next
    case False
    with 1 show ?thesis by (simp add: iter_chunks_Cons)
  qed
qed

lemma iter_chunks_member:
  "0 < k \<Longrightarrow> c \<in> set (iter_chunks xs k) \<Longrightarrow> c \<noteq> [] \<and> length c \<le> k \<and> set c \<subseteq> set xs"
proof (induction xs k rule: iter_chunks.induct)
  case (1 l sz)
  show ?case
  proof (cases "l = []")
    case True
    with 1 show ?thesis by (simp add: iter_chunks_Nil)
  next
    case False
    with 1(2,3) have "c = take sz l \<or> c \<in> set (iter_chunks (drop sz l) sz)"
      by (simp add: iter_chunks_Cons)
    then show ?thesis
    proof
      assume "c = take sz l"
      with False 1(2) show ?thesis by (auto dest: in_set_takeD)
    next
      assume "c \<in> set (iter_chunks (drop sz l) sz)"
      with 1 False have "c \<noteq> [] \<and> length c \<le> sz \<and> set c \<subseteq> set (drop sz l)" by simp
      then show ?thesis by (auto dest: in_set_dropD)
    qed
  qed
qed

lemma concat_map_chunks_length:
  assumes "\<forall>c \<in> set cs. length (f c) = length c"
  shows "length (concat (map f cs)) = length (concat cs)"
  using assms by (induction cs) auto

lemma concat_map_chunks_nth:
  assumes "0 < k" "\<forall>c \<in> set (iter_chunks xs k). length (f c) = length c" "i < length xs"
  shows "i div k < length (iter_chunks xs k) \<and>
         i mod k < length (iter_chunks xs k ! (i div k)) \<and>
         concat (map f (iter_chunks xs k)) ! i = f (iter_chunks xs k ! (i div k)) ! (i mod k) \<and>
         iter_chunks xs k ! (i div k) ! (i mod k) = xs ! i"
  using assms
proof (induction xs k arbitrary: i rule: iter_chunks.induct)
  case (1 l sz)
  from 1(4) have ne: "l \<noteq> []" by auto
  with 1(2) have unf: "iter_chunks l sz = take sz l # iter_chunks (drop sz l) sz"
    by (simp add: iter_chunks_Cons)
  from 1(3) unf have len_hd: "length (f (take sz l)) = length (take sz l)"
    and tl: "\<forall>c \<in> set (iter_chunks (drop sz l) sz). length (f c) = length c" by auto
  show ?case
  proof (cases "i < sz")
    case True
    with 1(4) have "i < length (take sz l)" by simp
    with True len_hd show ?thesis by (simp add: unf nth_append)
  next
    case False
    then have ge: "sz \<le> i" by simp
    with 1(4) have lt: "i - sz < length (drop sz l)" by simp
    from ge 1(4) have len_take: "length (take sz l) = sz" by simp
    have IH: "(i - sz) div sz < length (iter_chunks (drop sz l) sz) \<and>
         (i - sz) mod sz < length (iter_chunks (drop sz l) sz ! ((i - sz) div sz)) \<and>
         concat (map f (iter_chunks (drop sz l) sz)) ! (i - sz)
           = f (iter_chunks (drop sz l) sz ! ((i - sz) div sz)) ! ((i - sz) mod sz) \<and>
         iter_chunks (drop sz l) sz ! ((i - sz) div sz) ! ((i - sz) mod sz) = drop sz l ! (i - sz)"
      using 1(1)[OF _ ne 1(2) tl lt] 1(2) by simp
    from ge 1(2) have d: "i div sz = Suc ((i - sz) div sz)" and m: "i mod sz = (i - sz) mod sz"
      by (simp_all add: le_div_geq le_mod_geq)
    from ge 1(4) have nth_drop': "drop sz l ! (i - sz) = l ! i" by simp
    show ?thesis
      using IH ge len_hd len_take by (simp add: unf d m nth_append nth_drop')
  qed
qed

subsection \<open>Batch submission\<close>

lemma flatten_single: "is_single v \<Longrightarrow> flatten v = [v]"
  by (cases v) auto

lemma flatten_singles:
  "\<forall>v \<in> set vs. is_single v \<Longrightarrow> flatten (PList vs) = vs"
  by (induction vs) (auto simp: flatten_single)

lemma chunk_output_length:
  "list_or_raise op cs \<Longrightarrow> c \<in> set cs \<Longrightarrow> length (chunk_output op c) = length c"
proof -
  assume "list_or_raise op cs" "c \<in> set cs"
  then have h: "case op (PList c) of Inl e \<Rightarrow> True
      | Inr v \<Rightarrow> (case v of PList ys \<Rightarrow> length ys = length c | _ \<Rightarrow> False)"
    by (simp add: list_or_raise_def)
  show ?thesis
  proof (cases "op (PList c)")
    case (Inl e)
    then show ?thesis by (simp add: chunk_output_def)
  next
    case (Inr v)
    with h show ?thesis by (cases v) (simp_all add: chunk_output_def)
  qed
qed

lemma submit_outputs_chunks:
  "list_or_raise submit cs \<Longrightarrow>
   submit_outputs (zip (map PList cs) (map (\<lambda>c. submit (PList c)) cs)) acc
     = Inr (acc @ concat (map (chunk_output submit) cs))"
proof (induction cs arbitrary: acc)
  case Nil
  then show ?case by simp
next
  case (Cons c cs)
  from Cons.prems have tl: "list_or_raise submit cs" and
    hd: "case submit (PList c) of Inl e \<Rightarrow> True
         | Inr v \<Rightarrow> (case v of PList ys \<Rightarrow> length ys = length c | _ \<Rightarrow> False)"
    by (simp_all add: list_or_raise_def)
  have step: "py_iter (let job_ids = get_async_result_silent (submit (PList c))
        in if is_exception job_ids then PList (replicate (py_len (PList c)) job_ids) else job_ids)
      = Inr (chunk_output submit c)"
  proof (cases "submit (PList c)")
    case (Inl e)
    then show ?thesis by (simp add: get_async_result_silent_def chunk_output_def)
  next
    case (Inr v)
    with hd show ?thesis
      by (cases v) (simp_all add: get_async_result_silent_def chunk_output_def)
  qed
  show ?case
    using step Cons.IH[OF tl] by (simp add: Let_def)
qed

lemma submit_batch_chunked:
  assumes "0 < batch_chunk_size (chunk_size_submit self) cs"
    and "list_or_raise submit (iter_chunks xs (nat (batch_chunk_size (chunk_size_submit self) cs)))"
  shows "submit_batch submit self (PList xs) cs
     = Inr (concat (map (chunk_output submit)
         (iter_chunks xs (nat (batch_chunk_size (chunk_size_submit self) cs)))))"
  using assms
  by (simp add: submit_batch_def submit_chunks_def batch_chunks_def Let_def comp_def
      submit_outputs_chunks)

lemma submit_batch_single:
  assumes "\<not> 0 < batch_chunk_size (chunk_size_submit self) cs"
  shows "submit_batch submit self (PList xs) cs
     = Inr (flatten (PList (map (\<lambda>x. get_async_result_silent (submit x)) xs)))"
  using assms
  by (simp add: submit_batch_def submit_chunks_def batch_chunks_def Let_def comp_def)

lemma chunk_output_itemwise:
  assumes "list_per_chunk op r xs" "0 < k" "c \<in> set (iter_chunks xs k)"
  shows "op (PList c) = Inr (PList (map r c))" "chunk_output op c = map r c"
proof -
  from assms(2,3) have "c \<noteq> [] \<and> set c \<subseteq> set xs" by (auto dest: iter_chunks_member)
  with assms(1) show "op (PList c) = Inr (PList (map r c))" by (simp add: list_per_chunk_def)
  then show "chunk_output op c = map r c" by (simp add: chunk_output_def)
qed

lemma list_per_chunk_or_raise:
  assumes "list_per_chunk op r xs" "0 < k"
  shows "list_or_raise op (iter_chunks xs k)"
  using chunk_output_itemwise(1)[OF assms] by (simp add: list_or_raise_def)

lemma concat_chunks_itemwise:
  assumes "list_per_chunk op r xs" "0 < k"
  shows "concat (map (chunk_output op) (iter_chunks xs k)) = map r xs"
proof -
  have eq: "map (chunk_output op) (iter_chunks xs k) = map (map r) (iter_chunks xs k)"
    using chunk_output_itemwise(2)[OF assms] by simp
  have "concat (map (chunk_output op) (iter_chunks xs k)) = concat (map (map r) (iter_chunks xs k))"
    by (simp only: eq)
  also have "\<dots> = map r (concat (iter_chunks xs k))"
    by (simp only: map_concat)
  also have "\<dots> = map r xs"
    using assms(2) by (simp only: concat_iter_chunks)
  finally show ?thesis .
qed

lemma submit_batch_itemwise:
  assumes "one_result_per_item submit r xs" "\<forall>x \<in> set xs. is_single (r x)"
    and "list_per_chunk submit r xs"
  shows "submit_batch submit self (PList xs) cs = Inr (map r xs)"
proof (cases "0 < batch_chunk_size (chunk_size_submit self) cs")
  case True
  then have k: "0 < nat (batch_chunk_size (chunk_size_submit self) cs)" by simp
  show ?thesis
    using submit_batch_chunked[OF True list_per_chunk_or_raise[OF assms(3) k]]
      concat_chunks_itemwise[OF assms(3) k] by simp
next
  case False
  from assms(1) have eq: "map (\<lambda>x. get_async_result_silent (submit x)) xs = map r xs"
    by (simp add: one_result_per_item_def)
  from assms(2) have fl: "flatten (PList (map r xs)) = map r xs"
    by (intro flatten_singles) simp
  show ?thesis
    by (simp only: submit_batch_single[OF False] eq fl)
qed

subsection \<open>Batch cancelling and cleaning\<close>

lemma batch_chunks_chunked:
  "0 < batch_chunk_size dflt cs \<Longrightarrow>
   batch_chunks dflt cs (PList xs) = map PList (iter_chunks xs (nat (batch_chunk_size dflt cs)))"
  by (simp add: batch_chunks_def Let_def)

lemma batch_chunks_single:
  "\<not> 0 < batch_chunk_size dflt cs \<Longrightarrow> batch_chunks dflt cs (PList xs) = xs"
  by (simp add: batch_chunks_def Let_def)

lemma flatten_results_itemwise:
  assumes "one_result_per_item op r xs" "\<forall>x \<in> set xs. is_single (r x)"
    and "list_per_chunk op r xs"
  shows "flatten (PList (map get_async_result_silent (map op (batch_chunks dflt cs (PList xs)))))
     = map r xs"
proof (cases "0 < batch_chunk_size dflt cs")
  case True
  define k where "k = nat (batch_chunk_size dflt cs)"
  with True have k: "0 < k" by simp
  have each: "\<forall>c \<in> set (iter_chunks xs k).
      flatten (get_async_result_silent (op (PList c))) = map r c"
  proof
    fix c assume c: "c \<in> set (iter_chunks xs k)"
    with k have sub: "set c \<subseteq> set xs" by (auto dest: iter_chunks_member)
    with assms(2) have "\<forall>v \<in> set (map r c). is_single v" by auto
    then have "flatten (PList (map r c)) = map r c" by (rule flatten_singles)
    with chunk_output_itemwise(1)[OF assms(3) k c]
    show "flatten (get_async_result_silent (op (PList c))) = map r c"
      by (simp add: get_async_result_silent_def)
  qed
  have "flatten (PList (map get_async_result_silent (map op (map PList (iter_chunks xs k)))))
      = concat (map (\<lambda>c. flatten (get_async_result_silent (op (PList c)))) (iter_chunks xs k))"
    by (simp add: comp_def)
  also have "\<dots> = concat (map (map r) (iter_chunks xs k))"
    using each by (auto intro: arg_cong[where f = concat])
  also have "\<dots> = map r (concat (iter_chunks xs k))"
    by (simp only: map_concat)
  also have "\<dots> = map r xs"
    using k by (simp only: concat_iter_chunks)
  finally show ?thesis
    using True by (simp only: batch_chunks_chunked k_def)
next
  case False
  from assms(1) have eq: "map get_async_result_silent (map op xs) = map r xs"
    by (simp add: one_result_per_item_def)
  from assms(2) have fl: "flatten (PList (map r xs)) = map r xs"
    by (intro flatten_singles) simp
  show ?thesis
    by (simp only: batch_chunks_single[OF False] eq fl)
qed

lemma cancel_batch_itemwise:
  assumes "one_result_per_item cancel r xs" "\<forall>x \<in> set xs. is_single (r x)"
    and "list_per_chunk cancel r xs"
  shows "cancel_batch cancel self (PList xs) cs = filter truthy (map r xs)"
  unfolding cancel_batch_def cancel_chunks_def Let_def
  by (simp only: flatten_results_itemwise[OF assms])

lemma cleanup_batch_itemwise:
  assumes "one_result_per_item cleanup r xs" "\<forall>x \<in> set xs. is_single (r x)"
    and "list_per_chunk cleanup r xs"
  shows "cleanup_batch cleanup self (PList xs) cs = filter truthy (map r xs)"
  unfolding cleanup_batch_def cleanup_chunks_def Let_def
  by (simp only: flatten_results_itemwise[OF assms])

subsection \<open>Batch queries\<close>

lemma map_of_dict_set: "map_of (dict_set k v d) = (map_of d)(k \<mapsto> v)"
  by (induction d) (auto simp: fun_eq_iff)

lemma keys_dict_set: "fst ` set (dict_set k v d) = insert k (fst ` set d)"
  by (simp add: dom_map_of_conv_image_fst[symmetric] map_of_dict_set)

lemma map_of_dict_update_items:
  "map_of (dict_update_items kvs d) = map_of d ++ map_of (rev kvs)"
proof (induction kvs arbitrary: d)
  case Nil
  then show ?case by simp
next
  case (Cons kv kvs)
  obtain k v where kv: "kv = (k, v)" by (cases kv)
  show ?case
    unfolding kv
    by (auto simp: Cons.IH map_of_dict_set fun_eq_iff map_add_def split: option.splits)
qed

lemma keys_dict_update_items:
  "fst ` set (dict_update_items kvs d) = fst ` set d \<union> fst ` set kvs"
proof -
  have "dom (map_of (rev kvs)) = dom (map_of kvs)"
    by (simp add: dom_map_of_conv_image_fst)
  then have "dom (map_of (dict_update_items kvs d)) = dom (map_of d) \<union> dom (map_of kvs)"
    by (simp add: map_of_dict_update_items Un_commute)
  then show ?thesis
    by (simp only: dom_map_of_conv_image_fst)
qed

lemma map_of_rev_graph:
  "map_of (rev (map (\<lambda>x. (x, f x)) c)) y = (if y \<in> set c then Some (f y) else None)"
  by (induction c) (auto simp: map_add_def split: option.splits)

lemma dict_from_keys_hashable:
  "\<forall>k \<in> set ks. hashable k \<Longrightarrow>
   \<exists>d'. dict_from_keys ks v d = Inr d' \<and> fst ` set d' = fst ` set d \<union> set ks \<and>
        (\<forall>x. map_of d' x = (if x \<in> set ks then Some v else map_of d x))"
proof (induction ks arbitrary: d)
  case Nil
  then show ?case by simp
next
  case (Cons k ks)
  from Cons.prems have hk: "hashable k" and hks: "\<forall>k \<in> set ks. hashable k" by simp_all
  from Cons.IH[OF hks, of "dict_set k v d"] obtain d' where
    d': "dict_from_keys ks v (dict_set k v d) = Inr d'"
      "fst ` set d' = fst ` set (dict_set k v d) \<union> set ks"
      "\<forall>x. map_of d' x = (if x \<in> set ks then Some v else map_of (dict_set k v d) x)"
    by blast
  show ?case
    using hk d' by (auto simp: dict_setitem_def keys_dict_set map_of_dict_set)
qed

lemma query_single_hashable:
  "\<forall>x \<in> set xs. hashable x \<Longrightarrow>
   \<exists>d. query_single (zip xs (map query xs)) acc = Inr d \<and>
       fst ` set d = fst ` set acc \<union> set xs \<and>
       (\<forall>x. map_of d x = (if x \<in> set xs then Some (get_async_result_silent (query x))
                           else map_of acc x))"
proof (induction xs arbitrary: acc)
  case Nil
  then show ?case by simp
next
  case (Cons y ys)
  from Cons.prems have hy: "hashable y" and hys: "\<forall>x \<in> set ys. hashable x" by simp_all
  define acc' where "acc' = dict_set y (get_async_result_silent (query y)) acc"
  from Cons.IH[OF hys, of acc'] obtain d where
    d: "query_single (zip ys (map query ys)) acc' = Inr d"
      "fst ` set d = fst ` set acc' \<union> set ys"
      "\<forall>x. map_of d x = (if x \<in> set ys then Some (get_async_result_silent (query x))
                          else map_of acc' x)"
    by blast
  have "query_single (zip (y # ys) (map query (y # ys))) acc = Inr d"
    using hy d(1) by (simp add: dict_setitem_def acc'_def)
  moreover have "fst ` set d = fst ` set acc \<union> set (y # ys)"
    using d(2) by (auto simp: acc'_def keys_dict_set)
  moreover have "\<forall>x. map_of d x = (if x \<in> set (y # ys) then Some (get_async_result_silent (query x))
                           else map_of acc x)"
    using d(3) by (auto simp: acc'_def map_of_dict_set)
  ultimately show ?case by blast
qed


lemma set_dict_set: "set (dict_set k v d) \<subseteq> insert (k, v) (set d)"
  by (induction d) (auto split: if_splits)

lemma dict_from_keys_values:
  "dict_from_keys ks v d = Inr d' \<Longrightarrow> kv \<in> set d' \<Longrightarrow> kv \<in> set d \<or> snd kv = v"
proof (induction ks arbitrary: d)
  case Nil
  then show ?case by simp
next
  case (Cons k ks)
  from Cons.prems(1) have "hashable k" and run: "dict_from_keys ks v (dict_set k v d) = Inr d'"
    by (auto simp: dict_setitem_def split: if_splits)
  from Cons.IH[OF run Cons.prems(2)] have "kv \<in> set (dict_set k v d) \<or> snd kv = v" .
  then show ?case using set_dict_set[of k v d] by auto
qed

lemma map_of_const:
  "\<forall>kv \<in> set l. snd kv = w \<Longrightarrow> map_of l x = (if x \<in> fst ` set l then Some w else None)"
  by (induction l) (auto simp: image_iff)

text \<open>The effect of one round of the chunked loop on the dictionary.\<close>

lemma query_chunk_raise:
  assumes "query (PList c) = Inl e" "\<forall>x \<in> set c. hashable x"
  shows "\<exists>d'. query_chunked ((PList c, query (PList c)) # rest) acc = query_chunked rest d' \<and>
          fst ` set d' = fst ` set acc \<union> set c \<and>
          (\<forall>x. map_of d' x = (if x \<in> set c then Some (PExc e) else map_of acc x))"
proof -
  from dict_from_keys_hashable[OF assms(2), of "PExc e" "[]"] obtain d0 where
    d0: "dict_from_keys c (PExc e) [] = Inr d0" "fst ` set d0 = set c"
    by auto
  from dict_from_keys_values[OF d0(1)] have "\<forall>kv \<in> set (rev d0). snd kv = PExc e"
    by auto
  from map_of_const[OF this] d0(2)
  have m0: "\<And>x. map_of (rev d0) x = (if x \<in> set c then Some (PExc e) else None)"
    by simp
  have "query_chunked ((PList c, query (PList c)) # rest) acc
      = query_chunked rest (dict_update_items d0 acc)"
    using assms(1) d0(1) by (simp add: get_async_result_silent_def)
  moreover have "fst ` set (dict_update_items d0 acc) = fst ` set acc \<union> set c"
    by (simp add: keys_dict_update_items d0(2))
  moreover have "\<forall>x. map_of (dict_update_items d0 acc) x
      = (if x \<in> set c then Some (PExc e) else map_of acc x)"
    by (simp add: map_of_dict_update_items map_add_def m0)
  ultimately show ?thesis by blast
qed

lemma query_chunk_dict:
  assumes "query (PList c) = Inr (PDict d0)"
  shows "query_chunked ((PList c, query (PList c)) # rest) acc
      = query_chunked rest (dict_update_items d0 acc)"
  using assms by (simp add: get_async_result_silent_def)

lemma query_chunked_itemwise:
  assumes "\<forall>c \<in> set cs. query (PList c) = Inr (PDict (map (\<lambda>x. (x, r x)) c))"
  shows "\<exists>d. query_chunked (zip (map PList cs) (map (\<lambda>c. query (PList c)) cs)) acc = Inr d \<and>
       fst ` set d = fst ` set acc \<union> set (concat cs) \<and>
       (\<forall>x. map_of d x = (if x \<in> set (concat cs) then Some (r x) else map_of acc x))"
  using assms
proof (induction cs arbitrary: acc)
  case Nil
  then show ?case by simp
next
  case (Cons c cs)
  define acc' where "acc' = dict_update_items (map (\<lambda>x. (x, r x)) c) acc"
  from Cons.prems have hd: "query (PList c) = Inr (PDict (map (\<lambda>x. (x, r x)) c))"
    and tl: "\<forall>c \<in> set cs. query (PList c) = Inr (PDict (map (\<lambda>x. (x, r x)) c))"
    by simp_all
  from Cons.IH[OF tl, of acc'] obtain d where
    d: "query_chunked (zip (map PList cs) (map (\<lambda>c. query (PList c)) cs)) acc' = Inr d"
      "fst ` set d = fst ` set acc' \<union> set (concat cs)"
      "\<forall>x. map_of d x = (if x \<in> set (concat cs) then Some (r x) else map_of acc' x)"
    by blast
  have keys: "fst ` set acc' = fst ` set acc \<union> set c"
    by (simp add: acc'_def keys_dict_update_items image_image)
  have vals: "\<And>x. map_of acc' x = (if x \<in> set c then Some (r x) else map_of acc x)"
    by (simp add: acc'_def map_of_dict_update_items map_add_def rev_map[symmetric] map_of_rev_graph
        del: rev_map)
  have "query_chunked (zip (map PList (c # cs)) (map (\<lambda>c. query (PList c)) (c # cs))) acc = Inr d"
    using query_chunk_dict[of query c "map (\<lambda>x. (x, r x)) c", OF hd] d(1) by (simp add: acc'_def)
  moreover have "fst ` set d = fst ` set acc \<union> set (concat (c # cs))"
    using d(2) keys by auto
  moreover have "\<forall>x. map_of d x = (if x \<in> set (concat (c # cs)) then Some (r x) else map_of acc x)"
    using d(3) vals by auto
  ultimately show ?case by blast
qed

lemma query_batch_chunked:
  assumes "0 < batch_chunk_size (chunk_size_query self) cs"
  shows "query_batch query self (PList xs) cs
     = query_chunked
         (zip (map PList (iter_chunks xs (nat (batch_chunk_size (chunk_size_query self) cs))))
              (map (\<lambda>c. query (PList c))
                 (iter_chunks xs (nat (batch_chunk_size (chunk_size_query self) cs))))) []"
  using assms
  by (simp add: query_batch_def query_chunks_def batch_chunks_def Let_def comp_def)

lemma query_batch_single:
  assumes "\<not> 0 < batch_chunk_size (chunk_size_query self) cs"
  shows "query_batch query self (PList xs) cs = query_single (zip xs (map query xs)) []"
  using assms
  by (simp add: query_batch_def query_chunks_def batch_chunks_def Let_def)

lemma query_batch_itemwise:
  assumes "one_result_per_item query r xs" "dict_per_chunk query r xs"
    and "\<forall>x \<in> set xs. hashable x"
  shows "\<exists>d. query_batch query self (PList xs) cs = Inr d \<and> fst ` set d = set xs \<and>
           (\<forall>x \<in> set xs. map_of d x = Some (r x))"
proof (cases "0 < batch_chunk_size (chunk_size_query self) cs")
  case True
  define k where "k = nat (batch_chunk_size (chunk_size_query self) cs)"
  with True have k: "0 < k" by simp
  have "\<forall>c \<in> set (iter_chunks xs k). query (PList c) = Inr (PDict (map (\<lambda>x. (x, r x)) c))"
  proof
    fix c assume "c \<in> set (iter_chunks xs k)"
    with k have "c \<noteq> [] \<and> set c \<subseteq> set xs" by (auto dest: iter_chunks_member)
    with assms(2) show "query (PList c) = Inr (PDict (map (\<lambda>x. (x, r x)) c))"
      by (simp add: dict_per_chunk_def)
  qed
  from query_chunked_itemwise[OF this, of "[]"] k show ?thesis
    by (auto simp: query_batch_chunked[OF True] k_def[symmetric] concat_iter_chunks)
next
  case False
  from query_single_hashable[OF assms(3), of query "[]"] assms(1) show ?thesis
    by (auto simp: query_batch_single[OF False] one_result_per_item_def)
qed

lemma query_chunked_raise:
  assumes "dict_or_raise query cs" "\<forall>x \<in> set (concat cs). hashable x" "distinct (concat cs)"
  shows "\<exists>d. query_chunked (zip (map PList cs) (map (\<lambda>c. query (PList c)) cs)) acc = Inr d \<and>
       (\<forall>x. x \<notin> set (concat cs) \<longrightarrow> map_of d x = map_of acc x) \<and>
       (\<forall>c \<in> set cs. \<forall>e. query (PList c) = Inl e \<longrightarrow> (\<forall>x \<in> set c. map_of d x = Some (PExc e)))"
  using assms
proof (induction cs arbitrary: acc)
  case Nil
  then show ?case by simp
next
  case (Cons c cs)
  from Cons.prems have tl: "dict_or_raise query cs" "\<forall>x \<in> set (concat cs). hashable x"
      "distinct (concat cs)"
    and hc: "\<forall>x \<in> set c. hashable x"
    and disj: "set c \<inter> set (concat cs) = {}"
    and hd: "case query (PList c) of Inl e \<Rightarrow> True
        | Inr v \<Rightarrow> (case v of PDict d \<Rightarrow> fst ` set d \<subseteq> set c | _ \<Rightarrow> False)"
    by (auto simp: dict_or_raise_def)
  have "\<exists>acc'. query_chunked ((PList c, query (PList c)) #
              zip (map PList cs) (map (\<lambda>c. query (PList c)) cs)) acc
            = query_chunked (zip (map PList cs) (map (\<lambda>c. query (PList c)) cs)) acc' \<and>
          (\<forall>x. x \<notin> set c \<longrightarrow> map_of acc' x = map_of acc x) \<and>
          (\<forall>e. query (PList c) = Inl e \<longrightarrow> (\<forall>x \<in> set c. map_of acc' x = Some (PExc e)))"
  proof (cases "query (PList c)")
    case (Inl e)
    from query_chunk_raise[of query c e, OF Inl hc] Inl show ?thesis by (metis sum.inject(1))
  next
    case (Inr v)
    with hd obtain d0 where v: "v = PDict d0" and keys: "fst ` set d0 \<subseteq> set c"
      by (cases v) auto
    from Inr v have q: "query (PList c) = Inr (PDict d0)" by simp
    have "\<forall>x. x \<notin> set c \<longrightarrow> map_of (dict_update_items d0 acc) x = map_of acc x"
    proof (intro allI impI)
      fix x assume "x \<notin> set c"
      with keys have "x \<notin> fst ` set (rev d0)" by auto
      then have "map_of (rev d0) x = None" by (simp add: map_of_eq_None_iff)
      then show "map_of (dict_update_items d0 acc) x = map_of acc x"
        by (simp add: map_of_dict_update_items map_add_def)
    qed
    with query_chunk_dict[of query c d0, OF q] q show ?thesis by auto
  qed
  then obtain acc' where
    step: "query_chunked ((PList c, query (PList c)) #
              zip (map PList cs) (map (\<lambda>c. query (PList c)) cs)) acc
            = query_chunked (zip (map PList cs) (map (\<lambda>c. query (PList c)) cs)) acc'"
    and keep: "\<forall>x. x \<notin> set c \<longrightarrow> map_of acc' x = map_of acc x"
    and exc: "\<forall>e. query (PList c) = Inl e \<longrightarrow> (\<forall>x \<in> set c. map_of acc' x = Some (PExc e))"
    by blast
  from Cons.IH[OF tl, of acc'] obtain d where
    d: "query_chunked (zip (map PList cs) (map (\<lambda>c. query (PList c)) cs)) acc' = Inr d"
      "\<forall>x. x \<notin> set (concat cs) \<longrightarrow> map_of d x = map_of acc' x"
      "\<forall>c \<in> set cs. \<forall>e. query (PList c) = Inl e \<longrightarrow> (\<forall>x \<in> set c. map_of d x = Some (PExc e))"
    by blast
  have "query_chunked (zip (map PList (c # cs)) (map (\<lambda>c. query (PList c)) (c # cs))) acc = Inr d"
    using step d(1) by simp
  moreover have "\<forall>x. x \<notin> set (concat (c # cs)) \<longrightarrow> map_of d x = map_of acc x"
    using d(2) keep by simp
  moreover have "\<forall>c' \<in> set (c # cs). \<forall>e. query (PList c') = Inl e \<longrightarrow>
      (\<forall>x \<in> set c'. map_of d x = Some (PExc e))"
  proof (intro ballI allI impI)
    fix c' e x assume c': "c' \<in> set (c # cs)" and q: "query (PList c') = Inl e" and x: "x \<in> set c'"
    show "map_of d x = Some (PExc e)"
    proof (cases "c' \<in> set cs")
      case True
      with d(3) q x show ?thesis by blast
    next
      case False
      with c' have eq: "c' = c" by simp
      with x disj have "x \<notin> set (concat cs)" by auto
      with d(2) have "map_of d x = map_of acc' x" by simp
      with exc q x eq show ?thesis by simp
    qed
  qed
  ultimately show ?case by blast
qed

subsection \<open>A chunk whose call raises\<close>

lemma iter_chunks_take_drop:
  "0 < k \<Longrightarrow> iter_chunks (take (j * k) xs) k = take j (iter_chunks xs k) \<and>
             iter_chunks (drop (j * k) xs) k = drop j (iter_chunks xs k)"
proof (induction j arbitrary: xs)
  case 0
  then show ?case by (simp add: iter_chunks_Nil)
next
  case (Suc j)
  show ?case
  proof (cases "xs = []")
    case True
    with Suc.prems show ?thesis by (simp add: iter_chunks_Nil)
  next
    case False
    with Suc.prems have ne: "take (k + j * k) xs \<noteq> []" by simp
    have t: "take k (take (k + j * k) xs) = take k xs" by (simp add: min_def)
    have d: "drop k (take (k + j * k) xs) = take (j * k) (drop k xs)"
      by (simp add: drop_take)
    have d2: "drop (k + j * k) xs = drop (j * k) (drop k xs)"
      by (simp add: add.commute)
    from Suc.IH[OF Suc.prems, of "drop k xs"] show ?thesis
      using Suc.prems False
      by (simp add: iter_chunks_Cons[OF Suc.prems ne] iter_chunks_Cons[OF Suc.prems False] t d d2)
  qed
qed

lemma iter_chunks_nth:
  assumes "0 < k" "j < length (iter_chunks xs k)"
  shows "iter_chunks xs k ! j = take k (drop (j * k) xs)"
proof -
  from assms(2) have "drop j (iter_chunks xs k) \<noteq> []" by simp
  with iter_chunks_take_drop[OF assms(1), of j xs]
  have ne: "iter_chunks (drop (j * k) xs) k \<noteq> []" by simp
  then have nonempty: "drop (j * k) xs \<noteq> []"
    using assms(1) by (auto simp: iter_chunks_Nil)
  have "iter_chunks xs k ! j = hd (drop j (iter_chunks xs k))"
    using assms(2) by (simp add: hd_drop_conv_nth)
  also have "\<dots> = hd (iter_chunks (drop (j * k) xs) k)"
    using iter_chunks_take_drop[OF assms(1), of j xs] by simp
  also have "\<dots> = take k (drop (j * k) xs)"
    by (simp add: iter_chunks_Cons[OF assms(1) nonempty])
  finally show ?thesis .
qed

text \<open>The errors stored by \<open>cancel_batch\<close> and \<open>cleanup_batch\<close> for the calls on a list of chunks.\<close>

lemma stored_errors_append:
  "filter truthy (flatten (PList (map get_async_result_silent (map op (as @ bs)))))
     = filter truthy (flatten (PList (map get_async_result_silent (map op as))))
       @ filter truthy (flatten (PList (map get_async_result_silent (map op bs))))"
  by simp

lemma stored_errors_raise:
  assumes "raising_chunk op dflt cs xs j e"
  shows "filter truthy (flatten (PList (map get_async_result_silent
            (map op (batch_chunks dflt cs (PList xs))))))
     = filter truthy (flatten (PList (map get_async_result_silent
            (map op (batch_chunks dflt cs (PList (take (j * nat (batch_chunk_size dflt cs)) xs)))))))
       @ [PExc e]
       @ filter truthy (flatten (PList (map get_async_result_silent
            (map op (batch_chunks dflt cs (PList (drop (Suc j * nat (batch_chunk_size dflt cs)) xs)))))))"
proof -
  define k where "k = nat (batch_chunk_size dflt cs)"
  from assms have pos: "0 < batch_chunk_size dflt cs" and k: "0 < k"
    and j: "j < length (iter_chunks xs k)"
    and raise: "op (PList (iter_chunks xs k ! j)) = Inl e"
    by (simp_all add: raising_chunk_def batch_chunk_lists_def k_def)
  have split: "iter_chunks xs k
      = iter_chunks (take (j * k) xs) k @ [iter_chunks xs k ! j] @ iter_chunks (drop (Suc j * k) xs) k"
    using id_take_nth_drop[OF j] iter_chunks_take_drop[OF k, of j xs]
      iter_chunks_take_drop[OF k, of "Suc j" xs] by simp
  have "filter truthy (flatten (PList (map get_async_result_silent
            (map op (map PList (iter_chunks xs k))))))
     = filter truthy (flatten (PList (map get_async_result_silent
            (map op (map PList (iter_chunks (take (j * k) xs) k))))))
       @ [PExc e]
       @ filter truthy (flatten (PList (map get_async_result_silent
            (map op (map PList (iter_chunks (drop (Suc j * k) xs) k))))))"
    by (subst split) (simp add: raise get_async_result_silent_def)
  then show ?thesis
    using pos by (simp only: batch_chunks_chunked k_def)
qed

lemma cancel_batch_raise:
  assumes "raising_chunk cancel (chunk_size_cancel self) cs xs j e"
  shows "cancel_batch cancel self (PList xs) cs
     = cancel_batch cancel self
         (PList (take (j * nat (batch_chunk_size (chunk_size_cancel self) cs)) xs)) cs
       @ [PExc e]
       @ cancel_batch cancel self
         (PList (drop (Suc j * nat (batch_chunk_size (chunk_size_cancel self) cs)) xs)) cs"
  unfolding cancel_batch_def cancel_chunks_def Let_def
  by (rule stored_errors_raise[OF assms])

lemma cleanup_batch_raise:
  assumes "raising_chunk cleanup (chunk_size_cleanup self) cs xs j e"
  shows "cleanup_batch cleanup self (PList xs) cs
     = cleanup_batch cleanup self
         (PList (take (j * nat (batch_chunk_size (chunk_size_cleanup self) cs)) xs)) cs
       @ [PExc e]
       @ cleanup_batch cleanup self
         (PList (drop (Suc j * nat (batch_chunk_size (chunk_size_cleanup self) cs)) xs)) cs"
  unfolding cleanup_batch_def cleanup_chunks_def Let_def
  by (rule stored_errors_raise[OF assms])

lemma submit_batch_raise:
  assumes "raising_chunk submit (chunk_size_submit self) cs xs j e"
    and "list_or_raise submit (batch_chunk_lists (chunk_size_submit self) cs xs)"
  shows "\<exists>out. submit_batch submit self (PList xs) cs = Inr out \<and> length out = length xs \<and>
           (\<forall>i \<in> set (chunk_positions (chunk_size_submit self) cs xs j). out ! i = PExc e)"
proof -
  define k where "k = nat (batch_chunk_size (chunk_size_submit self) cs)"
  define out where "out = concat (map (chunk_output submit) (iter_chunks xs k))"
  from assms(1) have pos: "0 < batch_chunk_size (chunk_size_submit self) cs" and k: "0 < k"
    and j: "j < length (iter_chunks xs k)"
    and raise: "submit (PList (iter_chunks xs k ! j)) = Inl e"
    by (simp_all add: raising_chunk_def batch_chunk_lists_def k_def)
  from assms(2) have wf: "list_or_raise submit (iter_chunks xs k)"
    by (simp add: batch_chunk_lists_def k_def)
  then have lens: "\<forall>c \<in> set (iter_chunks xs k). length (chunk_output submit c) = length c"
    by (simp add: chunk_output_length)
  have res: "submit_batch submit self (PList xs) cs = Inr out"
    using submit_batch_chunked[OF pos] wf by (simp add: k_def out_def)
  have len: "length out = length xs"
    using concat_map_chunks_length[OF lens] k by (simp add: out_def concat_iter_chunks)
  have "\<forall>i \<in> set (chunk_positions (chunk_size_submit self) cs xs j). out ! i = PExc e"
  proof
    fix i assume "i \<in> set (chunk_positions (chunk_size_submit self) cs xs j)"
    then have i: "i < length xs" and ij: "i div k = j"
      by (simp_all add: chunk_positions_def k_def)
    from concat_map_chunks_nth[OF k lens i] ij
    have m: "i mod k < length (iter_chunks xs k ! j)"
      and nth: "out ! i = chunk_output submit (iter_chunks xs k ! j) ! (i mod k)"
      by (simp_all add: out_def)
    from raise have "chunk_output submit (iter_chunks xs k ! j)
        = replicate (length (iter_chunks xs k ! j)) (PExc e)"
      by (simp add: chunk_output_def)
    with m nth show "out ! i = PExc e" by simp
  qed
  with res len show ?thesis by blast
qed

lemma query_batch_raise:
  assumes "raising_chunk query (chunk_size_query self) cs xs j e"
    and "dict_or_raise query (batch_chunk_lists (chunk_size_query self) cs xs)"
    and "distinct xs" "\<forall>x \<in> set xs. hashable x"
  shows "\<exists>d. query_batch query self (PList xs) cs = Inr d \<and>
           (\<forall>x \<in> set (batch_chunk_lists (chunk_size_query self) cs xs ! j). map_of d x = Some (PExc e))"
proof -
  define k where "k = nat (batch_chunk_size (chunk_size_query self) cs)"
  from assms(1) have pos: "0 < batch_chunk_size (chunk_size_query self) cs" and k: "0 < k"
    and j: "j < length (iter_chunks xs k)"
    and raise: "query (PList (iter_chunks xs k ! j)) = Inl e"
    by (simp_all add: raising_chunk_def batch_chunk_lists_def k_def)
  from assms(2) have wf: "dict_or_raise query (iter_chunks xs k)"
    by (simp add: batch_chunk_lists_def k_def)
  from k assms(3,4) have "distinct (concat (iter_chunks xs k))"
    "\<forall>x \<in> set (concat (iter_chunks xs k)). hashable x"
    by (simp_all add: concat_iter_chunks)
  from query_chunked_raise[OF wf this(2) this(1), of "[]"] obtain d where
    d: "query_chunked (zip (map PList (iter_chunks xs k))
          (map (\<lambda>c. query (PList c)) (iter_chunks xs k))) [] = Inr d"
      "\<forall>c \<in> set (iter_chunks xs k). \<forall>e. query (PList c) = Inl e \<longrightarrow>
          (\<forall>x \<in> set c. map_of d x = Some (PExc e))"
    by blast
  from j have "iter_chunks xs k ! j \<in> set (iter_chunks xs k)" by simp
  with d(2) raise have "\<forall>x \<in> set (iter_chunks xs k ! j). map_of d x = Some (PExc e)" by blast
  with d(1) show ?thesis
    by (simp add: query_batch_chunked[OF pos] batch_chunk_lists_def k_def)
qed

subsection \<open>Results in the order of the input\<close>

text \<open>
  C1, as stated, fails for \<open>cancel_batch\<close> and \<open>cleanup_batch\<close>: they return the errors only.
  Two jobs cancelled without an error give the empty list, not a list of length two.
\<close>

theorem cancel_batch_length_counterexample:
  "cancel_batch example_cancel (BaseJobManager_init None None 1) (PList [PStr ''a'', PStr ''b'']) None = []"
  by (simp add: cancel_batch_def cancel_chunks_def batch_chunks_def batch_chunk_size_def
      BaseJobManager_init_def Let_def get_async_result_silent_def)

text \<open>
  C1, amended. Let the atomic operation return one result \<open>r x\<close> for an item \<open>x\<close> of the
  input list (or raise it), and for a chunk the list of the results of its items (for
  \<open>query\<close>: the dictionary from the job ids of the chunk to their results). Then, for every
  configured default and every \<open>chunk_size\<close> argument, \<open>submit_batch\<close> returns the list of
  the results in the order of the input, of the same length; \<open>query_batch\<close> returns a
  dictionary whose keys are the input job ids and which maps each to its own result;
  \<open>cancel_batch\<close> and \<open>cleanup_batch\<close> return, in the order of the input, only those results
  that are true, that is the errors, so that their output is shorter than the input
  wherever an item succeeded.
\<close>

theorem batch_results_aligned:
  "(one_result_per_item submit r xs \<and> (\<forall>x \<in> set xs. is_single (r x)) \<and> list_per_chunk submit r xs
      \<longrightarrow> submit_batch submit self (PList xs) cs = Inr (map r xs))
   \<and> (one_result_per_item query r xs \<and> dict_per_chunk query r xs \<and> (\<forall>x \<in> set xs. hashable x)
      \<longrightarrow> (\<exists>d. query_batch query self (PList xs) cs = Inr d \<and> fst ` set d = set xs \<and>
               (\<forall>x \<in> set xs. map_of d x = Some (r x))))
   \<and> (one_result_per_item cancel r xs \<and> (\<forall>x \<in> set xs. is_single (r x)) \<and> list_per_chunk cancel r xs
      \<longrightarrow> cancel_batch cancel self (PList xs) cs = filter truthy (map r xs))
   \<and> (one_result_per_item cleanup r xs \<and> (\<forall>x \<in> set xs. is_single (r x)) \<and> list_per_chunk cleanup r xs
      \<longrightarrow> cleanup_batch cleanup self (PList xs) cs = filter truthy (map r xs))"
  using submit_batch_itemwise[of submit r xs self cs] query_batch_itemwise[of query r xs self cs]
    cancel_batch_itemwise[of cancel r xs self cs] cleanup_batch_itemwise[of cleanup r xs self cs]
  by blast

lemma example_submit_answers:
  "one_result_per_item example_submit example_result example_jobs"
  "\<forall>x \<in> set example_jobs. is_single (example_result x)"
  "list_per_chunk example_submit example_result example_jobs"
  "\<forall>x \<in> set example_jobs. hashable x"
  by (simp_all add: one_result_per_item_def list_per_chunk_def example_jobs_def
      get_async_result_silent_def)

lemma example_query_answers:
  "one_result_per_item example_query example_result example_jobs"
  "dict_per_chunk example_query example_result example_jobs"
  by (simp_all add: one_result_per_item_def dict_per_chunk_def example_jobs_def
      get_async_result_silent_def)

lemma example_cancel_answers:
  "one_result_per_item example_cancel (\<lambda>x. PNone) example_jobs"
  "\<forall>x \<in> set example_jobs. is_single ((\<lambda>x. PNone) x)"
  "list_per_chunk example_cancel (\<lambda>x. PNone) example_jobs"
  by (simp_all add: one_result_per_item_def list_per_chunk_def example_jobs_def
      get_async_result_silent_def)

subsection \<open>The exception of a whole chunk\<close>

text \<open>
  C2, as stated, fails for \<open>cancel_batch\<close> and \<open>cleanup_batch\<close>: the exception of a chunk is
  stored once, not once per item. With the chunk size \<open>2\<close> and a backend that raises, the
  chunk of the two job ids \<open>a\<close> and \<open>b\<close> leaves one error entry.
\<close>

theorem cancel_batch_chunk_error_counterexample:
  "cancel_batch example_down ((BaseJobManager_init None None 1)\<lparr> chunk_size_cancel := 2 \<rparr>)
     (PList [PStr ''a'', PStr ''b'']) None
   = [PExc (BackendError ''queue is down'')]"
  by (simp add: cancel_batch_def cancel_chunks_def batch_chunks_def batch_chunk_size_def
      BaseJobManager_init_def Let_def get_async_result_silent_def example_down_def
      iter_chunks.simps)

text \<open>
  C2, amended. In a chunked batch call in which the atomic operation, applied to the whole
  chunk number \<open>j\<close>, raises the exception \<open>e\<close>:
  \<^item> \<open>submit_batch\<close>, when on every chunk the operation raises or returns a list as long as
    the chunk, returns a list as long as the input that holds \<open>e\<close> at each position of
    chunk \<open>j\<close>;
  \<^item> \<open>query_batch\<close>, when the job ids are distinct and hashable and on every chunk the
    operation raises or returns a dictionary keyed by job ids of that chunk, maps every
    job id of chunk \<open>j\<close> to \<open>e\<close>;
  \<^item> \<open>cancel_batch\<close> and \<open>cleanup_batch\<close> store \<open>e\<close> once for the whole chunk: their result is
    the errors of the items before the chunk, then the one entry \<open>e\<close>, then the errors of
    the items after the chunk.
\<close>

theorem chunk_exception_broadcast:
  "(raising_chunk submit (chunk_size_submit self) cs xs j e
      \<and> list_or_raise submit (batch_chunk_lists (chunk_size_submit self) cs xs)
      \<longrightarrow> (\<exists>out. submit_batch submit self (PList xs) cs = Inr out \<and> length out = length xs \<and>
             (\<forall>i \<in> set (chunk_positions (chunk_size_submit self) cs xs j). out ! i = PExc e)))
   \<and> (raising_chunk query (chunk_size_query self) cs xs j e
      \<and> dict_or_raise query (batch_chunk_lists (chunk_size_query self) cs xs)
      \<and> distinct xs \<and> (\<forall>x \<in> set xs. hashable x)
      \<longrightarrow> (\<exists>d. query_batch query self (PList xs) cs = Inr d \<and>
             (\<forall>x \<in> set (batch_chunk_lists (chunk_size_query self) cs xs ! j).
                map_of d x = Some (PExc e))))
   \<and> (raising_chunk cancel (chunk_size_cancel self) cs xs j e
      \<longrightarrow> cancel_batch cancel self (PList xs) cs
          = cancel_batch cancel self
              (PList (take (j * nat (batch_chunk_size (chunk_size_cancel self) cs)) xs)) cs
            @ [PExc e]
            @ cancel_batch cancel self
              (PList (drop (Suc j * nat (batch_chunk_size (chunk_size_cancel self) cs)) xs)) cs)
   \<and> (raising_chunk cleanup (chunk_size_cleanup self) cs xs j e
      \<longrightarrow> cleanup_batch cleanup self (PList xs) cs
          = cleanup_batch cleanup self
              (PList (take (j * nat (batch_chunk_size (chunk_size_cleanup self) cs)) xs)) cs
            @ [PExc e]
            @ cleanup_batch cleanup self
              (PList (drop (Suc j * nat (batch_chunk_size (chunk_size_cleanup self) cs)) xs)) cs)"
  using submit_batch_raise[of submit self cs xs j e] query_batch_raise[of query self cs xs j e]
    cancel_batch_raise[of cancel self cs xs j e] cleanup_batch_raise[of cleanup self cs xs j e]
  by blast

text \<open>
  An example: the three jobs \<open>a\<close>, \<open>b\<close>, \<open>c\<close> in chunks of two, with a backend that answers
  the first chunk and is down for every chunk that holds \<open>c\<close>.
\<close>

lemma example_chunks:
  "iter_chunks example_jobs 2 = [[PStr ''a'', PStr ''b''], [PStr ''c'']]"
  by (simp add: example_jobs_def iter_chunks.simps)


lemma example_manager_sizes:
  "batch_chunk_size (chunk_size_submit example_manager) None = 2"
  "batch_chunk_size (chunk_size_query example_manager) None = 2"
  "batch_chunk_size (chunk_size_cancel example_manager) None = 2"
  "batch_chunk_size (chunk_size_cleanup example_manager) None = 2"
  by (simp_all add: example_manager_def BaseJobManager_init_def batch_chunk_size_def)

lemma example_raising_chunks:
  "raising_chunk example_flaky_submit (chunk_size_submit example_manager) None example_jobs 1
     (BackendError ''queue is down'')"
  "list_or_raise example_flaky_submit
     (batch_chunk_lists (chunk_size_submit example_manager) None example_jobs)"
  "raising_chunk example_flaky_query (chunk_size_query example_manager) None example_jobs 1
     (BackendError ''queue is down'')"
  "dict_or_raise example_flaky_query
     (batch_chunk_lists (chunk_size_query example_manager) None example_jobs)"
  "raising_chunk example_flaky_cancel (chunk_size_cancel example_manager) None example_jobs 1
     (BackendError ''queue is down'')"
  "raising_chunk example_flaky_cancel (chunk_size_cleanup example_manager) None example_jobs 1
     (BackendError ''queue is down'')"
  by (simp_all add: raising_chunk_def list_or_raise_def dict_or_raise_def batch_chunk_lists_def
      example_manager_sizes example_chunks)

lemma example_jobs_distinct:
  "distinct example_jobs" "\<forall>x \<in> set example_jobs. hashable x"
  by (simp_all add: example_jobs_def)

lemma example_positions:
  "chunk_positions (chunk_size_submit example_manager) None example_jobs 1 = [2]"
  by (simp add: chunk_positions_def example_manager_sizes example_jobs_def upt_rec)

lemma example_raising_chunk_items:
  "batch_chunk_lists (chunk_size_query example_manager) None example_jobs ! 1 = [PStr ''c'']"
  by (simp add: batch_chunk_lists_def example_manager_sizes example_chunks)

subsection \<open>The batch operations on the example backends\<close>

lemma example_query_batch:
  "query_batch example_query example_manager (PList example_jobs) None
      = Inr [(PStr ''a'', PStr ''a.id''), (PStr ''b'', PStr ''b.id''), (PStr ''c'', PStr ''c.id'')]"
  by (simp add: query_batch_chunked example_manager_sizes example_chunks get_async_result_silent_def)

lemma example_flaky_submit_batch:
  "submit_batch example_flaky_submit example_manager (PList example_jobs) None
      = Inr [PStr ''a.id'', PStr ''b.id'', PExc (BackendError ''queue is down'')]"
  by (simp add: submit_batch_def submit_chunks_def batch_chunks_def Let_def
      example_manager_sizes example_chunks get_async_result_silent_def)

lemma example_flaky_query_batch:
  "query_batch example_flaky_query example_manager (PList example_jobs) None
      = Inr [(PStr ''a'', PStr ''a.id''), (PStr ''b'', PStr ''b.id''),
             (PStr ''c'', PExc (BackendError ''queue is down''))]"
  by (simp add: query_batch_chunked example_manager_sizes example_chunks
      get_async_result_silent_def dict_setitem_def)

lemma example_flaky_cancel_parts:
  "cancel_batch example_flaky_cancel example_manager (PList [PStr ''a'', PStr ''b'']) None = []"
  "cancel_batch example_flaky_cancel example_manager (PList []) None = []"
  "cleanup_batch example_flaky_cancel example_manager (PList [PStr ''a'', PStr ''b'']) None = []"
  "cleanup_batch example_flaky_cancel example_manager (PList []) None = []"
  by (simp_all add: cancel_batch_def cancel_chunks_def cleanup_batch_def cleanup_chunks_def
      batch_chunks_def Let_def example_manager_sizes iter_chunks.simps get_async_result_silent_def)


theorem batch_results_aligned_witness:
  "submit_batch example_submit example_manager (PList example_jobs) None
      = Inr [PStr ''a.id'', PStr ''b.id'', PStr ''c.id'']
   \<and> query_batch example_query example_manager (PList example_jobs) None
      = Inr [(PStr ''a'', PStr ''a.id''), (PStr ''b'', PStr ''b.id''), (PStr ''c'', PStr ''c.id'')]
   \<and> cancel_batch example_cancel example_manager (PList example_jobs) None = []
   \<and> cleanup_batch example_cancel example_manager (PList example_jobs) None = []"
proof -
  note ids = batch_results_aligned[of example_submit example_result example_jobs example_manager
      None example_query example_cancel example_cancel]
  note errors = batch_results_aligned[of example_cancel "\<lambda>x. PNone" example_jobs
      example_manager None example_cancel example_cancel example_cancel]
  from ids example_submit_answers
  have "submit_batch example_submit example_manager (PList example_jobs) None
      = Inr (map example_result example_jobs)"
    by blast
  then have submit: "submit_batch example_submit example_manager (PList example_jobs) None
      = Inr [PStr ''a.id'', PStr ''b.id'', PStr ''c.id'']"
    by (simp add: example_jobs_def)
  from errors example_cancel_answers
  have "cancel_batch example_cancel example_manager (PList example_jobs) None
      = filter truthy (map (\<lambda>x. PNone) example_jobs)"
    and "cleanup_batch example_cancel example_manager (PList example_jobs) None
      = filter truthy (map (\<lambda>x. PNone) example_jobs)"
    by blast+
  then have cancel: "cancel_batch example_cancel example_manager (PList example_jobs) None = []"
    and cleanup: "cleanup_batch example_cancel example_manager (PList example_jobs) None = []"
    by simp_all
  from submit example_query_batch cancel cleanup show ?thesis by blast
qed

theorem chunk_exception_broadcast_witness:
  "submit_batch example_flaky_submit example_manager (PList example_jobs) None
      = Inr [PStr ''a.id'', PStr ''b.id'', PExc (BackendError ''queue is down'')]
   \<and> query_batch example_flaky_query example_manager (PList example_jobs) None
      = Inr [(PStr ''a'', PStr ''a.id''), (PStr ''b'', PStr ''b.id''),
             (PStr ''c'', PExc (BackendError ''queue is down''))]
   \<and> cancel_batch example_flaky_cancel example_manager (PList example_jobs) None
      = [PExc (BackendError ''queue is down'')]
   \<and> cleanup_batch example_flaky_cancel example_manager (PList example_jobs) None
      = [PExc (BackendError ''queue is down'')]"
proof -
  note down = chunk_exception_broadcast[of example_flaky_submit example_manager None example_jobs 1
      "BackendError ''queue is down''" example_flaky_query example_flaky_cancel example_flaky_cancel]
  from down example_raising_chunks(5)
  have "cancel_batch example_flaky_cancel example_manager (PList example_jobs) None
      = cancel_batch example_flaky_cancel example_manager
          (PList (take (1 * nat (batch_chunk_size (chunk_size_cancel example_manager) None))
             example_jobs)) None
        @ [PExc (BackendError ''queue is down'')]
        @ cancel_batch example_flaky_cancel example_manager
          (PList (drop (Suc 1 * nat (batch_chunk_size (chunk_size_cancel example_manager) None))
             example_jobs)) None"
    by blast
  then have cancel: "cancel_batch example_flaky_cancel example_manager (PList example_jobs) None
      = [PExc (BackendError ''queue is down'')]"
    by (simp add: example_manager_sizes example_jobs_def example_flaky_cancel_parts)
  from down example_raising_chunks(6)
  have "cleanup_batch example_flaky_cancel example_manager (PList example_jobs) None
      = cleanup_batch example_flaky_cancel example_manager
          (PList (take (1 * nat (batch_chunk_size (chunk_size_cleanup example_manager) None))
             example_jobs)) None
        @ [PExc (BackendError ''queue is down'')]
        @ cleanup_batch example_flaky_cancel example_manager
          (PList (drop (Suc 1 * nat (batch_chunk_size (chunk_size_cleanup example_manager) None))
             example_jobs)) None"
    by blast
  then have cleanup: "cleanup_batch example_flaky_cancel example_manager (PList example_jobs) None
      = [PExc (BackendError ''queue is down'')]"
    by (simp add: example_manager_sizes example_jobs_def example_flaky_cancel_parts)
  from example_flaky_submit_batch example_flaky_query_batch cancel cleanup show ?thesis by blast
qed

subsection \<open>Rendering a file\<close>

text \<open>
  C6, as stated, fails for a missing source file: \<open>render_file\<close> raises \<open>IOError\<close> before it
  looks at \<open>silent\<close>.
\<close>

theorem render_file_missing_counterexample:
  "render_file example_env Map.empty ''job.sh'' ''out/job.sh'' [] PfNone True
   = (Inl (IOError ''source file for rendering does not exist: job.sh''), Map.empty)"
  by (simp add: render_file_def isfile_def)

text \<open>
  C6, amended. When the source is not a file (it is missing, or a directory),
  \<open>render_file\<close> raises \<open>IOError\<close> whatever \<open>silent\<close> is. When the source is a file that does
  not decode as text, the call returns without raising when \<open>silent\<close> is true and raises
  \<open>UnicodeDecodeError\<close> when it is false. In all three cases the file system is left as it
  was: the destination is not created.
\<close>

theorem render_file_unreadable:
  "(\<not> isfile fs src \<longrightarrow>
      render_file env fs src dst render_variables pfx silent
        = (Inl (IOError (''source file for rendering does not exist: '' @ src)), fs))
   \<and> (fs src = Some BinaryFile \<longrightarrow>
      render_file env fs src dst render_variables pfx True = (Inr (), fs) \<and>
      render_file env fs src dst render_variables pfx False = (Inl UnicodeDecodeError, fs))"
  by (simp add: render_file_def isfile_def)

theorem render_file_unreadable_witness:
  "render_file example_env (Map.empty(''blob'' \<mapsto> BinaryFile)) ''blob'' ''out'' [] PfNone True
     = (Inr (), Map.empty(''blob'' \<mapsto> BinaryFile))
   \<and> render_file example_env (Map.empty(''blob'' \<mapsto> BinaryFile)) ''blob'' ''out'' [] PfNone False
     = (Inl UnicodeDecodeError, Map.empty(''blob'' \<mapsto> BinaryFile))
   \<and> render_file example_env (Map.empty(''blob'' \<mapsto> BinaryFile)) ''job.sh'' ''out'' [] PfNone True
     = (Inl (IOError ''source file for rendering does not exist: job.sh''),
        Map.empty(''blob'' \<mapsto> BinaryFile))"
  using render_file_unreadable[of "Map.empty(''blob'' \<mapsto> BinaryFile)" "''blob''" example_env
      "''out''" "[]" PfNone True]
    render_file_unreadable[of "Map.empty(''blob'' \<mapsto> BinaryFile)" "''job.sh''" example_env
      "''out''" "[]" PfNone True]
  by (simp add: isfile_def)

lemma sub_postfix_markers_first:
  assumes "\<forall>i < length pre. take (length postfix_marker) (drop i (pre @ postfix_marker)) \<noteq> postfix_marker"
    and "p \<noteq> []" "\<forall>c \<in> set p. \<not> is_space_char c"
    and "rest = [] \<or> is_space_char (hd rest)"
  shows "sub_postfix_markers fn (pre @ postfix_marker @ p @ rest)
     = pre @ fn p @ sub_postfix_markers fn rest"
  using assms(1)
proof (induction pre)
  case Nil
  from assms(2-4) have tw: "takeWhile (\<lambda>c. \<not> is_space_char c) (p @ rest) = p"
    and dw: "dropWhile (\<lambda>c. \<not> is_space_char c) (p @ rest) = rest"
    by (cases rest; simp add: takeWhile_append dropWhile_append)+
  show ?case
    using assms(2) tw dw
    by (subst sub_postfix_markers.simps) (simp add: postfix_marker_def)
next
  case (Cons c pre)
  from Cons.prems have here: "take (length postfix_marker) (c # pre @ postfix_marker) \<noteq> postfix_marker"
    by (auto dest: spec[of _ 0])
  moreover have "take (length postfix_marker) ((c # pre @ postfix_marker) @ (p @ rest))
      = take (length postfix_marker) (c # pre @ postfix_marker)"
    by (subst take_append) simp
  ultimately have no:
    "take (length postfix_marker) (c # pre @ postfix_marker @ p @ rest) \<noteq> postfix_marker"
    by simp
  from Cons.prems have later:
    "\<forall>i < length pre. take (length postfix_marker) (drop i (pre @ postfix_marker)) \<noteq> postfix_marker"
    by (auto dest: spec[of _ "Suc i" for i])
  show ?case
    using no Cons.IH[OF later]
    by (subst sub_postfix_markers.simps) simp
qed


lemma render_loop_append:
  "render_loop env pfx (vars1 @ vars2) content
     = (case render_loop env pfx vars1 content of
          Inl e \<Rightarrow> Inl e
        | Inr content1 \<Rightarrow> render_loop env pfx vars2 content1)"
proof (induction vars1 arbitrary: content)
  case Nil
  then show ?case by simp
next
  case (Cons kv vars1)
  obtain key v where kv: "kv = (key, v)" by (cases kv)
  show ?case
    unfolding kv by (cases v) (simp_all add: Cons.IH Let_def)
qed

lemma render_file_text:
  "fs src = Some (TextFile content) \<Longrightarrow>
   render_file env fs src dst render_variables pfx silent
     = (case render_loop env pfx render_variables content of
          Inl e \<Rightarrow> (Inl e, fs)
        | Inr content1 \<Rightarrow> (Inr (), fs(dst \<mapsto> TextFile (render_key_strip content1))))"
  by (simp add: render_file_def isfile_def)

text \<open>
  C7, as stated, fails: the marker that the code looks for is \<open>__law_job_postfix__:\<close>. A
  value with the token \<open>__job_postfix__:a.txt\<close> is put into the file as it is, where
  \<open>postfix_input_file\<close> of \<open>a.txt\<close> would be \<open>a_abc123_1.txt\<close>.
\<close>

theorem render_file_marker_counterexample:
  "snd (render_file example_env (Map.empty(''job.sh'' \<mapsto> TextFile ''run {{input}}''))
          ''job.sh'' ''out.sh'' [(''input'', PStr ''__job_postfix__:a.txt'')] (PfStr ''_1'') True)
     ''out.sh''
   = Some (TextFile ''run __job_postfix__:a.txt'')
   \<and> postfix_input_file example_env ''a.txt'' (PfStr ''_1'') = ''a_abc123_1.txt''"
  by (simp add: render_file_def isfile_def render_string_def str_replace_def
      replace_from.simps sub_postfix_markers.simps render_key_strip.simps match_key_at_def
      postfix_marker_def postfix_input_file_def postfix_file_def os_path_split_def
      os_path_join_def example_env_def Let_def)


text \<open>
  C7, amended. \<open>render_file\<close> on a source that decodes to a text writes that text, after the
  loop over the render variables and with the keys left over removed. In the loop with a
  non-empty \<open>postfix\<close>, a value whose first marker \<open>__law_job_postfix__:\<close> is followed by
  the path \<open>p\<close>, a non-empty run of characters other than white space that ends at a white
  space or at the end of the value, is put into the content with marker and path replaced
  by \<open>postfix_input_file(p, postfix)\<close>, and with the rest of the value treated likewise.
\<close>

theorem render_file_postfix_marker:
  "(fs src = Some (TextFile content) \<longrightarrow>
      render_file env fs src dst render_variables pfx silent
        = (case render_loop env pfx render_variables content of
             Inl e \<Rightarrow> (Inl e, fs)
           | Inr content1 \<Rightarrow> (Inr (), fs(dst \<mapsto> TextFile (render_key_strip content1)))))
   \<and> (postfix_truthy pfx
      \<and> (\<forall>i < length pre.
            take (length postfix_marker) (drop i (pre @ postfix_marker)) \<noteq> postfix_marker)
      \<and> p \<noteq> [] \<and> (\<forall>c \<in> set p. \<not> is_space_char c)
      \<and> (rest = [] \<or> is_space_char (hd rest)) \<longrightarrow>
      render_loop env pfx (vars1 @ (key, PStr (pre @ postfix_marker @ p @ rest)) # vars2) content
        = (case render_loop env pfx vars1 content of
             Inl e \<Rightarrow> Inl e
           | Inr content1 \<Rightarrow>
               render_loop env pfx vars2
                 (render_string content1 key
                    (pre @ postfix_input_file env p pfx @
                     sub_postfix_markers (\<lambda>q. postfix_input_file env q pfx) rest))))"
proof (intro conjI impI)
  assume "fs src = Some (TextFile content)"
  then show "render_file env fs src dst render_variables pfx silent
        = (case render_loop env pfx render_variables content of
             Inl e \<Rightarrow> (Inl e, fs)
           | Inr content1 \<Rightarrow> (Inr (), fs(dst \<mapsto> TextFile (render_key_strip content1))))"
    by (rule render_file_text)
next
  assume h: "postfix_truthy pfx
      \<and> (\<forall>i < length pre.
            take (length postfix_marker) (drop i (pre @ postfix_marker)) \<noteq> postfix_marker)
      \<and> p \<noteq> [] \<and> (\<forall>c \<in> set p. \<not> is_space_char c)
      \<and> (rest = [] \<or> is_space_char (hd rest))"
  then have sub: "sub_postfix_markers (\<lambda>q. postfix_input_file env q pfx)
        (pre @ postfix_marker @ p @ rest)
      = pre @ postfix_input_file env p pfx @
        sub_postfix_markers (\<lambda>q. postfix_input_file env q pfx) rest"
    by (intro sub_postfix_markers_first) simp_all
  from h have t: "postfix_truthy pfx" by simp
  show "render_loop env pfx (vars1 @ (key, PStr (pre @ postfix_marker @ p @ rest)) # vars2) content
        = (case render_loop env pfx vars1 content of
             Inl e \<Rightarrow> Inl e
           | Inr content1 \<Rightarrow>
               render_loop env pfx vars2
                 (render_string content1 key
                    (pre @ postfix_input_file env p pfx @
                     sub_postfix_markers (\<lambda>q. postfix_input_file env q pfx) rest)))"
    by (simp add: render_loop_append t sub Let_def split: sum.splits)
qed

lemma example_marker_first:
  "\<forall>i < length ''cat ''.
     take (length postfix_marker) (drop i (''cat '' @ postfix_marker)) \<noteq> postfix_marker"
  by (simp add: postfix_marker_def less_Suc_eq)

lemma example_path_text:
  "\<forall>c \<in> set ''a.txt''. \<not> is_space_char c" "is_space_char (hd '' now'')"
  by (simp_all add: is_space_char_def)

theorem render_file_postfix_marker_witness:
  "snd (render_file example_env (Map.empty(''job.sh'' \<mapsto> TextFile ''run {{input}}''))
          ''job.sh'' ''out.sh''
          [(''input'', PStr (''cat '' @ postfix_marker @ ''a.txt'' @ '' now''))] (PfStr ''_1'') True)
     ''out.sh''
   = Some (TextFile ''run cat a_abc123_1.txt now'')"
proof -
  note written = render_file_postfix_marker[of "Map.empty(''job.sh'' \<mapsto> TextFile ''run {{input}}'')"
      "''job.sh''" "''run {{input}}''" example_env "''out.sh''"
      "[(''input'', PStr (''cat '' @ postfix_marker @ ''a.txt'' @ '' now''))]" "PfStr ''_1''" True
      "''cat ''" "''a.txt''" "'' now''" "[]" "''input''" "[]"]
  from written example_marker_first example_path_text
  have loop: "render_loop example_env (PfStr ''_1'')
        [(''input'', PStr (''cat '' @ postfix_marker @ ''a.txt'' @ '' now''))] ''run {{input}}''
      = Inr (render_string ''run {{input}}'' ''input''
          (''cat '' @ postfix_input_file example_env ''a.txt'' (PfStr ''_1'') @
           sub_postfix_markers (\<lambda>q. postfix_input_file example_env q (PfStr ''_1'')) '' now''))"
    by simp
  from written
  have file_eq: "render_file example_env (Map.empty(''job.sh'' \<mapsto> TextFile ''run {{input}}''))
        ''job.sh'' ''out.sh''
        [(''input'', PStr (''cat '' @ postfix_marker @ ''a.txt'' @ '' now''))] (PfStr ''_1'') True
      = (case render_loop example_env (PfStr ''_1'')
               [(''input'', PStr (''cat '' @ postfix_marker @ ''a.txt'' @ '' now''))] ''run {{input}}'' of
           Inl e \<Rightarrow> (Inl e, Map.empty(''job.sh'' \<mapsto> TextFile ''run {{input}}''))
         | Inr content1 \<Rightarrow>
             (Inr (), (Map.empty(''job.sh'' \<mapsto> TextFile ''run {{input}}''))
                (''out.sh'' \<mapsto> TextFile (render_key_strip content1))))"
    by simp
  have text_eq: "render_key_strip (render_string ''run {{input}}'' ''input''
          (''cat '' @ postfix_input_file example_env ''a.txt'' (PfStr ''_1'') @
           sub_postfix_markers (\<lambda>q. postfix_input_file example_env q (PfStr ''_1'')) '' now''))
      = ''run cat a_abc123_1.txt now''"
    by (simp add: render_string_def str_replace_def replace_from.simps sub_postfix_markers.simps
        render_key_strip.simps match_key_at_def postfix_marker_def postfix_input_file_def
        postfix_file_def os_path_split_def os_path_join_def example_env_def Let_def)
  show ?thesis
    by (simp only: file_eq loop text_eq sum.case snd_conv fun_upd_same)
qed

subsection \<open>Linearizing render variables\<close>

lemma example_cycle_steps:
  "render_key_search ''{{a}}'' = Some ''a''" "render_key_search ''{{b}}'' = Some ''b''"
  "dict_get example_cycle ''a'' = PStr ''{{b}}''" "dict_get example_cycle ''b'' = PStr ''{{a}}''"
  "render_string ''{{a}}'' ''a'' ''{{b}}'' = ''{{b}}''"
  "render_string ''{{b}}'' ''b'' ''{{a}}'' = ''{{a}}''"
  by (simp_all add: match_key_at_def is_word_char_def dict_get_def example_cycle_def
      render_string_def str_replace_def replace_from.simps)

lemma cycle_never_returns:
  assumes "linearize_value rv v = Some y"
  shows "rv = example_cycle \<longrightarrow> v \<noteq> ''{{a}}'' \<and> v \<noteq> ''{{b}}''"
proof (rule linearize_value.raw_induct[OF _ assms])
  fix f :: "(string \<times> pyval) list \<Rightarrow> string \<Rightarrow> (pyerr + string) option"
  fix rv v y
  assume IH: "\<And>rv' v' y'. f rv' v' = Some y' \<Longrightarrow>
      rv' = example_cycle \<longrightarrow> v' \<noteq> ''{{a}}'' \<and> v' \<noteq> ''{{b}}''"
    and unfolded: "(case render_key_search v of
        None \<Rightarrow> Some (Inr v)
      | Some sub_key \<Rightarrow>
          (case dict_get rv sub_key of
             PStr w \<Rightarrow> f rv (render_string v sub_key w)
           | _ \<Rightarrow> Some (Inl TypeError))) = Some y"
  show "rv = example_cycle \<longrightarrow> v \<noteq> ''{{a}}'' \<and> v \<noteq> ''{{b}}''"
  proof (intro impI conjI notI)
    assume rv: "rv = example_cycle" and v: "v = ''{{a}}''"
    from unfolded have "f example_cycle ''{{b}}'' = Some y"
      unfolding rv v by (simp only: example_cycle_steps option.case pyval.case)
    from IH[OF this] show False by simp
  next
    assume rv: "rv = example_cycle" and v: "v = ''{{b}}''"
    from unfolded have "f example_cycle ''{{a}}'' = Some y"
      unfolding rv v by (simp only: example_cycle_steps option.case pyval.case)
    from IH[OF this] show False by simp
  qed
qed

lemma linearize_value_cycle: "linearize_value example_cycle ''{{b}}'' = None"
proof (cases "linearize_value example_cycle ''{{b}}''")
  case None
  then show ?thesis .
next
  case (Some y)
  from cycle_never_returns[OF this] show ?thesis by simp
qed

text \<open>
  C5, as stated, fails: on the mapping in which \<open>a\<close> is \<open>{{b}}\<close> and \<open>b\<close> is \<open>{{a}}\<close> the loop
  replaces the one key by the other for ever, and the call does not return.
\<close>

theorem linearize_cycle_counterexample:
  "linearize_render_variables example_env example_cycle = None"
  by (simp add: linearize_render_variables_def example_cycle_def
      linearize_value_cycle[unfolded example_cycle_def])

subsection \<open>Templates as text\<close>

lemma brace_not_word: "\<not> is_word_char CHR ''{''" "\<not> is_word_char CHR ''}''"
  by (simp_all add: is_word_char_def)

lemma unparse_append: "unparse (xs @ ys) = unparse xs @ unparse ys"
  by (induction xs rule: unparse.induct) simp_all

lemma word_run:
  assumes "list_all is_word_char k"
  shows "takeWhile is_word_char (k @ CHR ''}'' # r) = k"
    and "dropWhile is_word_char (k @ CHR ''}'' # r) = CHR ''}'' # r"
  using assms by (induction k) (simp_all add: brace_not_word)

lemma match_key_at_tok:
  assumes "k \<noteq> []" "list_all is_word_char k"
  shows "match_key_at (''{{'' @ k @ ''}}'' @ r) = Some k"
  using assms word_run[OF assms(2), of "CHR ''}'' # r"] by (simp add: match_key_at_def)

lemma match_key_at_other: "c \<noteq> CHR ''{'' \<Longrightarrow> match_key_at (c # r) = None"
  by (simp add: match_key_at_def)

text \<open>The search finds the first token of a template.\<close>

lemma render_key_search_template:
  "list_all wf_seg segs \<Longrightarrow>
   render_key_search (unparse segs) = (case tok_names segs of [] \<Rightarrow> None | k # ks \<Rightarrow> Some k)"
proof (induction segs rule: unparse.induct)
  case 1
  then show ?case by simp
next
  case (2 c segs)
  then show ?case by (simp add: match_key_at_other)
next
  case (3 k segs)
  then have "match_key_at (''{{'' @ k @ ''}}'' @ unparse segs) = Some k"
    by (intro match_key_at_tok) simp_all
  then show ?case by simp
qed

text \<open>The replacement of a key passes over text without an opening brace.\<close>

lemma replace_from_skip:
  assumes "old \<noteq> []" "hd old = CHR ''{''" "\<forall>c \<in> set t. c \<noteq> CHR ''{''"
  shows "replace_from old new (t @ r) = t @ replace_from old new r"
  using assms(3)
proof (induction t)
  case Nil
  then show ?case by simp
next
  case (Cons c t)
  from Cons.prems have c: "c \<noteq> CHR ''{''" by simp
  have "take (length old) (c # t @ r) \<noteq> old"
  proof
    assume "take (length old) (c # t @ r) = old"
    then have "hd old = c" using assms(1) by (cases old) auto
    with assms(2) c show False by simp
  qed
  then show ?case
    using Cons by (subst replace_from.simps) simp
qed

lemma replace_from_tok_same:
  "replace_from (''{{'' @ k @ ''}}'') new (''{{'' @ k @ ''}}'' @ r)
     = new @ replace_from (''{{'' @ k @ ''}}'') new r"
  by (subst replace_from.simps) simp

lemma tok_prefix_differs:
  assumes "list_all is_word_char k" "list_all is_word_char k'" "k' \<noteq> k"
  shows "take (length (''{{'' @ k @ ''}}'')) (''{{'' @ k' @ ''}}'' @ r) \<noteq> ''{{'' @ k @ ''}}''"
proof
  assume "take (length (''{{'' @ k @ ''}}'')) (''{{'' @ k' @ ''}}'' @ r) = ''{{'' @ k @ ''}}''"
  then have "take (length (k @ ''}}'')) (k' @ ''}}'' @ r) = k @ ''}}''" by simp
  then have "\<exists>z. k' @ ''}}'' @ r = (k @ ''}}'') @ z"
    by (metis append_take_drop_id)
  then obtain z where "k' @ CHR ''}'' # (CHR ''}'' # r) = k @ CHR ''}'' # (CHR ''}'' # z)" by auto
  then have "takeWhile is_word_char (k' @ CHR ''}'' # (CHR ''}'' # r))
      = takeWhile is_word_char (k @ CHR ''}'' # (CHR ''}'' # z))" by simp
  with assms(1,2) have "k' = k" by (simp only: word_run)
  with assms(3) show False by simp
qed

lemma replace_from_tok_other:
  assumes "list_all is_word_char k" "k' \<noteq> []" "list_all is_word_char k'" "k' \<noteq> k"
  shows "replace_from (''{{'' @ k @ ''}}'') new (''{{'' @ k' @ ''}}'' @ r)
     = ''{{'' @ k' @ ''}}'' @ replace_from (''{{'' @ k @ ''}}'') new r"
proof -
  let ?old = "''{{'' @ k @ ''}}''"
  from assms(2,3) have hd_word: "hd k' \<noteq> CHR ''{''"
    by (cases k') (auto simp: brace_not_word)
  have first: "replace_from ?old new (''{{'' @ k' @ ''}}'' @ r)
      = CHR ''{'' # replace_from ?old new (CHR ''{'' # k' @ ''}}'' @ r)"
    using tok_prefix_differs[OF assms(1,3,4), of r]
    by (subst replace_from.simps) simp
  have "take (length ?old) (CHR ''{'' # k' @ ''}}'' @ r) \<noteq> ?old"
    using assms(2) hd_word by (cases k') auto
  then have second: "replace_from ?old new (CHR ''{'' # k' @ ''}}'' @ r)
      = CHR ''{'' # replace_from ?old new (k' @ ''}}'' @ r)"
    by (subst replace_from.simps) simp
  from assms(3) have "\<forall>c \<in> set (k' @ ''}}''). c \<noteq> CHR ''{''"
    by (auto simp: list_all_iff brace_not_word)
  from replace_from_skip[OF _ _ this, of ?old new r]
  have third: "replace_from ?old new ((k' @ ''}}'') @ r) = (k' @ ''}}'') @ replace_from ?old new r"
    by simp
  show ?thesis
    using first second third by simp
qed

text \<open>Rendering a key in a template replaces exactly its tokens.\<close>

lemma render_string_template:
  assumes "k \<noteq> []" "list_all is_word_char k" "list_all wf_seg segs"
  shows "render_string (unparse segs) k (unparse sk) = unparse (subst_tok k sk segs)"
proof -
  let ?old = "''{{'' @ k @ ''}}''"
  have "replace_from ?old (unparse sk) (unparse segs) = unparse (subst_tok k sk segs)"
    using assms(3)
  proof (induction segs rule: unparse.induct)
    case 1
    then show ?case by (simp add: replace_from.simps)
  next
    case (2 c segs)
    then have c: "\<forall>x \<in> set [c]. x \<noteq> CHR ''{''" by simp
    from replace_from_skip[OF _ _ c, of ?old "unparse sk" "unparse segs"] 2 show ?case by simp
  next
    case (3 k' segs)
    show ?case
    proof (cases "k' = k")
      case True
      with 3 replace_from_tok_same[of k "unparse sk" "unparse segs"] show ?thesis
        by (simp add: unparse_append)
    next
      case False
      with 3 replace_from_tok_other[OF assms(2) _ _ False, of "unparse sk" "unparse segs"]
      show ?thesis by simp
    qed
  qed
  then show ?thesis by (simp add: render_string_def str_replace_def)
qed

end
